theory Spec2Isabelle
  imports Main
begin

section \<open>Data model\<close>

text \<open>
  The development embeds \<^verbatim>\<open>src/dbt/compilation.py\<close>: the classes \<^verbatim>\<open>Linker\<close> and
  \<^verbatim>\<open>Compiler\<close>. Objects the file only receives (model descriptors, the project
  mapping, the template adapter) are records of the attributes and method results the
  file reads from them; collaborators whose code is elsewhere (discovery, the project
  loader, statement construction, the operating system) are function-valued fields of
  records. A function that can raise returns a sum, the exception on the left; where the
  state reached matters it is returned beside the result.
\<close>

text \<open>Python values as far as the file inspects them (\<^verbatim>\<open>model_config.get('enabled')\<close>
  is only tested for truth).\<close>

datatype pyval = PyNone | PyBool bool | PyInt int | PyStr string

fun truthy :: "pyval \<Rightarrow> bool" where
  "truthy PyNone = False"
| "truthy (PyBool b) = b"
| "truthy (PyInt i) = (i \<noteq> 0)"
| "truthy (PyStr s) = (s \<noteq> [])"

text \<open>A \<^verbatim>\<open>dict\<close> with string keys, and \<^verbatim>\<open>dict.get(key)\<close>, which yields
  \<^verbatim>\<open>None\<close> for a missing key.\<close>

type_synonym pydict = "(string \<times> pyval) list"

definition dict_get :: "pydict \<Rightarrow> string \<Rightarrow> pyval" where
  "dict_get d k = (case map_of d k of None \<Rightarrow> PyNone | Some v \<Rightarrow> v)"

text \<open>A fully-qualified name: \<^verbatim>\<open>tuple(model.fqn)\<close>.\<close>

type_synonym fqn = "string list"

text \<open>
  A template as the templating engine sees it: literal text, a call
  \<^verbatim>\<open>{{ ref(args) }}\<close> of the injected callable with string arguments, or an expression
  whose evaluation raises inside the engine.
\<close>

datatype item = Text string | Call "string list" | Raise

text \<open>
  A model (or analysis) descriptor. \<open>name\<close>, \<open>fqn\<close> are the attributes of the same
  names; \<open>project_name\<close> is \<^verbatim>\<open>model.project['name']\<close>; \<open>config\<close> is the mapping
  \<^verbatim>\<open>model.get_config(self.project)\<close> returns; \<open>template\<close> is what
  \<^verbatim>\<open>jinja.get_template(model.rel_filepath)\<close> loads, \<open>None\<close> when loading raises (the
  file is missing or does not parse); \<open>build_path\<close> is the result of
  \<^verbatim>\<open>model.build_path(self.create_template)\<close>.
\<close>

record model =
  name :: string
  fqn :: fqn
  project_name :: string
  config :: pydict
  template :: "item list option"
  build_path :: string

text \<open>
  Every exception the file raises or lets through. The three \<^verbatim>\<open>RuntimeError\<close>s carry
  the arguments of their message:
  \<^item> \<open>ReferenceNotFound n p\<close>: \<^verbatim>\<open>"Can't find a model named '{n}' in package '{p}' -- does it exist?"\<close>
  \<^item> \<open>AmbiguousReference n p k found\<close>:
    \<^verbatim>\<open>"Model specification is ambiguous: model='{n}' package='{p}' -- {k} models match criteria: {found}"\<close>
  \<^item> \<open>DuplicateModelName n\<close>: \<^verbatim>\<open>"ERROR: Conflicting model found model={n}"\<close>

  \<open>TemplateLoadError\<close> stands for the exceptions of \<^verbatim>\<open>get_template\<close>, \<open>TemplateError\<close>
  for those of \<^verbatim>\<open>template.render\<close>, \<open>KeyError\<close> for a missing key of the context.
\<close>

datatype error =
    ReferenceNotFound string string
  | AmbiguousReference string string nat "model list"
  | DuplicateModelName string
  | UnboundLocalError
  | TemplateLoadError
  | TemplateError
  | KeyError
  | OSError
  | IOError
  | CyclicDependency

text \<open>The adapter \<^verbatim>\<open>self.create_template\<close>: its naming transform and its label.\<close>

record create_template =
  model_name :: "string \<Rightarrow> string"
  label :: string

text \<open>
  A rendering context as far as the file reads it: a mapping whose entry \<^verbatim>\<open>'env'\<close> is a
  mapping of strings.
\<close>

type_synonym pycontext = "(string \<times> (string \<times> string) list) list"

text \<open>
  The project mapping: \<^verbatim>\<open>project['target-path']\<close>, \<^verbatim>\<open>project['modules-path']\<close>,
  \<^verbatim>\<open>project.get('source-paths', [])\<close> and \<^verbatim>\<open>project.get('analysis-paths', [])\<close>
  (\<open>None\<close> when the key is absent), and the outcome of \<^verbatim>\<open>project.context()\<close>: the
  context, or the exception the call raises.
\<close>

record project =
  target_path :: string
  modules_path :: string
  source_paths :: "string list option"
  analysis_paths :: "string list option"
  project_context :: "error + pycontext"

text \<open>
  A \<^verbatim>\<open>Compiler\<close> object with the collaborators it calls: \<open>read_project\<close> is
  \<^verbatim>\<open>dbt.project.read_project\<close>, \<open>get_models\<close> and \<open>get_analyses\<close> are
  \<^verbatim>\<open>Source(project).get_models(paths)\<close> and \<^verbatim>\<open>Source(project).get_analyses(paths)\<close>,
  and \<open>model_compile m rendered\<close> is
  \<^verbatim>\<open>m.compile(rendered, self.project, self.create_template)\<close>, \<open>None\<close> for Python's \<^verbatim>\<open>None\<close>.
\<close>

record compiler =
  project :: project
  create_template :: create_template
  read_project :: "string \<Rightarrow> project"
  get_models :: "project \<Rightarrow> string list \<Rightarrow> model list"
  get_analyses :: "project \<Rightarrow> string list \<Rightarrow> model list"
  model_compile :: "model \<Rightarrow> string \<Rightarrow> string option"

section \<open>Linker\<close>

text \<open>
  Modelled from the spec: the graph type \<^verbatim>\<open>nx.DiGraph\<close> of the third-party library, which
  is not under \<^verbatim>\<open>src/\<close>. It is a set of nodes and a set of directed edges (4.1), kept
  here as lists without repetition in insertion order. \<^verbatim>\<open>add_node\<close> inserts a node that
  is absent; \<^verbatim>\<open>add_edge(u, v)\<close> inserts both end points when absent and then the edge,
  when it is absent.
\<close>

record graph =
  nodes :: "fqn list"
  edges :: "(fqn \<times> fqn) list"

definition DiGraph :: graph where
  "DiGraph = \<lparr>nodes = [], edges = []\<rparr>"

definition add_node :: "fqn \<Rightarrow> graph \<Rightarrow> graph" where
  "add_node n g = (if n \<in> set (nodes g) then g else g\<lparr>nodes := nodes g @ [n]\<rparr>)"

definition add_edge :: "fqn \<Rightarrow> fqn \<Rightarrow> graph \<Rightarrow> graph" where
  "add_edge u v g =
     (let g1 = add_node v (add_node u g)
      in if (u, v) \<in> set (edges g1) then g1 else g1\<lparr>edges := edges g1 @ [(u, v)]\<rparr>)"

text \<open>\<^verbatim>\<open>Linker.add_node\<close> (lines 27-28) is \<open>add_node\<close> on the linker's graph.
  \<^verbatim>\<open>Linker.dependency(node1, node2)\<close> (lines 21-25): "indicate that node1 depends on node2".\<close>

definition dependency :: "fqn \<Rightarrow> fqn \<Rightarrow> graph \<Rightarrow> graph" where
  "dependency node1 node2 g = add_edge node2 node1 (add_node node2 (add_node node1 g))"

section \<open>Reference resolution\<close>

text \<open>The scan of \<^verbatim>\<open>find_model_by_name\<close> (lines 92-98), \<open>found\<close> being the list built so far.\<close>

fun find_scan :: "model list \<Rightarrow> string \<Rightarrow> string option \<Rightarrow> model list \<Rightarrow> model list" where
  "find_scan [] nm package_namespace found = found"
| "find_scan (m # ms) nm package_namespace found =
     find_scan ms nm package_namespace
       (if name m = nm then
          (case package_namespace of
             None \<Rightarrow> found @ [m]
           | Some p \<Rightarrow> if p = project_name m then found @ [m] else found)
        else found)"

definition find_model_by_name :: "model list \<Rightarrow> string \<Rightarrow> string option \<Rightarrow> error + model" where
  "find_model_by_name project_models nm package_namespace =
     (let found = find_scan project_models nm package_namespace [];
          nice_package_name = (case package_namespace of None \<Rightarrow> ''ANY'' | Some p \<Rightarrow> p)
      in if length found = 0 then Inl (ReferenceNotFound nm nice_package_name)
         else if length found = 1 then Inr (found ! 0)
         else Inl (AmbiguousReference nm nice_package_name (length found) found))"

text \<open>\<^verbatim>\<open>'"{}"'.format(s)\<close>: the text between double quotes.\<close>

definition quoted :: "string \<Rightarrow> string" where
  "quoted s = CHR 0x22 # s @ [CHR 0x22]"

text \<open>Lines 123-129 of \<^verbatim>\<open>do_ref\<close>, after the lookup \<open>r\<close>; an exception of the lookup
  leaves the linker as it was.\<close>

definition ref_register ::
  "compiler \<Rightarrow> string \<Rightarrow> fqn \<Rightarrow> string \<Rightarrow> error + model \<Rightarrow> graph \<Rightarrow> (error + string) \<times> graph" where
  "ref_register c schema_name source_model other_model_name r linker =
     (case r of
        Inl e \<Rightarrow> (Inl e, linker)
      | Inr other_model \<Rightarrow>
          (let rendered_name = model_name (create_template c) other_model_name;
               other_model_fqn = butlast (fqn other_model) @ [rendered_name]
           in (Inr (quoted schema_name @ ''.'' @ quoted rendered_name),
               dependency source_model other_model_fqn linker)))"

text \<open>
  The closure \<^verbatim>\<open>do_ref(*args)\<close> (lines 115-129). With neither one nor two arguments no
  branch binds \<^verbatim>\<open>other_model_name\<close> and line 123 raises \<^verbatim>\<open>UnboundLocalError\<close>.
\<close>

definition do_ref ::
  "compiler \<Rightarrow> string \<Rightarrow> fqn \<Rightarrow> model list \<Rightarrow> string list \<Rightarrow> graph \<Rightarrow> (error + string) \<times> graph" where
  "do_ref c schema_name source_model all_models args linker =
     (if length args = 1 then
        (let other_model_name = args ! 0
         in ref_register c schema_name source_model other_model_name
              (find_model_by_name all_models other_model_name None) linker)
      else if length args = 2 then
        (let other_model_package = args ! 0; other_model_name = args ! 1
         in ref_register c schema_name source_model other_model_name
              (find_model_by_name all_models other_model_name (Some other_model_package)) linker)
      else (Inl UnboundLocalError, linker))"

text \<open>
  \<^verbatim>\<open>Compiler.__ref\<close> (lines 108-131). Line 109 reads \<^verbatim>\<open>ctx['env']['schema']\<close> and raises
  \<^verbatim>\<open>KeyError\<close> when a key is missing; only then is the source model registered as a node
  (line 113) and the closure returned.
\<close>

definition Compiler_ref ::
  "compiler \<Rightarrow> graph \<Rightarrow> pycontext \<Rightarrow> model \<Rightarrow> model list \<Rightarrow>
     error + graph \<times> (string list \<Rightarrow> graph \<Rightarrow> (error + string) \<times> graph)" where
  "Compiler_ref c linker ctx m all_models =
     (case map_of ctx ''env'' of
        None \<Rightarrow> Inl KeyError
      | Some env \<Rightarrow>
          (case map_of env ''schema'' of
             None \<Rightarrow> Inl KeyError
           | Some schema_name \<Rightarrow>
               (let source_model = fqn m
                in Inr (add_node source_model linker,
                        do_ref c schema_name source_model all_models))))"

text \<open>
  Modelled from the spec: the templating collaborator (\<^verbatim>\<open>template.render(context)\<close> of the
  third-party engine, not under \<^verbatim>\<open>src/\<close>). It goes through the template from left to
  right, calls \<open>ref\<close> at each call site and splices the returned text into the output;
  an exception of \<open>ref\<close> or of the engine ends the rendering.
\<close>

fun render ::
  "(string list \<Rightarrow> graph \<Rightarrow> (error + string) \<times> graph) \<Rightarrow> item list \<Rightarrow> graph \<Rightarrow> (error + string) \<times> graph" where
  "render ref [] g = (Inr [], g)"
| "render ref (Text t # its) g =
     (case render ref its g of
        (Inl e, g1) \<Rightarrow> (Inl e, g1)
      | (Inr out, g1) \<Rightarrow> (Inr (t @ out), g1))"
| "render ref (Call args # its) g =
     (case ref args g of
        (Inl e, g1) \<Rightarrow> (Inl e, g1)
      | (Inr s, g1) \<Rightarrow>
          (case render ref its g1 of
             (Inl e, g2) \<Rightarrow> (Inl e, g2)
           | (Inr out, g2) \<Rightarrow> (Inr (s @ out), g2)))"
| "render ref (Raise # its) g = (Inl TemplateError, g)"

section \<open>The operating system\<close>

text \<open>
  A file holds a statement or a graph written by \<^verbatim>\<open>nx.write_yaml\<close>.
\<close>

datatype content = Payload string | GraphYaml graph

text \<open>
  The operating system is a collaborator too. Its state has some type \<open>'w\<close>; the file
  reaches it through \<^verbatim>\<open>os.path.exists\<close>, \<^verbatim>\<open>os.path.isdir\<close>, \<^verbatim>\<open>os.listdir\<close>,
  \<^verbatim>\<open>os.makedirs\<close>, opening a file for writing and writing it (\<open>write_file\<close>, also what
  \<^verbatim>\<open>nx.write_yaml\<close> does with the graph) and \<^verbatim>\<open>print\<close>. \<open>file_content\<close> is what
  a file holds, for statements about what a run has persisted; the file itself never
  reads. A call that raises returns the state it has reached.
\<close>

record 'w system =
  path_exists :: "string \<Rightarrow> 'w \<Rightarrow> bool"
  path_isdir :: "string \<Rightarrow> 'w \<Rightarrow> bool"
  listdir :: "string \<Rightarrow> 'w \<Rightarrow> error + string list"
  makedirs :: "string \<Rightarrow> 'w \<Rightarrow> (error + unit) \<times> 'w"
  write_file :: "string \<Rightarrow> content \<Rightarrow> 'w \<Rightarrow> (error + unit) \<times> 'w"
  print_line :: "string \<Rightarrow> 'w \<Rightarrow> 'w"
  file_content :: "string \<Rightarrow> 'w \<Rightarrow> content option"

text \<open>\<^verbatim>\<open>os.path.join(a, b)\<close> and \<^verbatim>\<open>os.path.dirname(p)\<close> of \<^verbatim>\<open>posixpath\<close>.\<close>

definition path_join :: "string \<Rightarrow> string \<Rightarrow> string" where
  "path_join a b =
     (if b \<noteq> [] \<and> hd b = CHR ''/'' then b
      else if a = [] \<or> last a = CHR ''/'' then a @ b
      else a @ ''/'' @ b)"

definition dirname :: "string \<Rightarrow> string" where
  "dirname p =
     (let head = rev (dropWhile (\<lambda>ch. ch \<noteq> CHR ''/'') (rev p))
      in if head \<noteq> [] \<and> (\<exists>ch \<in> set head. ch \<noteq> CHR ''/'')
         then rev (dropWhile (\<lambda>ch. ch = CHR ''/'') (rev head))
         else head)"

text \<open>\<^verbatim>\<open>Linker.write_graph\<close> (lines 30-31): the serialised graph becomes the content of
  the file.\<close>

definition write_graph :: "'w system \<Rightarrow> graph \<Rightarrow> string \<Rightarrow> 'w \<Rightarrow> (error + unit) \<times> 'w" where
  "write_graph sys linker outfile w = write_file sys outfile (GraphYaml linker) w"

section \<open>Compiler\<close>


text \<open>\<^verbatim>\<open>Compiler.dependency_projects\<close> (lines 48-53), the generator run to its end.\<close>

definition dependency_projects :: "'w system \<Rightarrow> compiler \<Rightarrow> 'w \<Rightarrow> error + project list" where
  "dependency_projects sys c w =
     (case listdir sys (modules_path (project c)) w of
        Inl e \<Rightarrow> Inl e
      | Inr objs \<Rightarrow>
          Inr (map (\<lambda>obj. read_project c
                      (path_join (path_join (modules_path (project c)) obj) ''dbt_project.yml''))
                 (filter (\<lambda>obj. path_isdir sys (path_join (modules_path (project c)) obj) w) objs)))"

definition model_sources :: "compiler \<Rightarrow> project \<Rightarrow> model list" where
  "model_sources c p = get_models c p (case source_paths p of None \<Rightarrow> [] | Some paths \<Rightarrow> paths)"

definition analysis_sources :: "compiler \<Rightarrow> project \<Rightarrow> model list" where
  "analysis_sources c p = get_analyses c p (case analysis_paths p of None \<Rightarrow> [] | Some paths \<Rightarrow> paths)"

text \<open>\<^verbatim>\<open>Compiler.validate_models_unique\<close> (lines 66-73); \<open>model_names\<close> is the set built so
  far.\<close>

fun validate_scan :: "string set \<Rightarrow> model list \<Rightarrow> error + unit" where
  "validate_scan model_names [] = Inr ()"
| "validate_scan model_names (m # ms) =
     (if name m \<in> model_names then Inl (DuplicateModelName (name m))
      else validate_scan (insert (name m) model_names) ms)"

definition validate_models_unique :: "model list \<Rightarrow> error + unit" where
  "validate_models_unique models = validate_scan {} models"

text \<open>\<^verbatim>\<open>Compiler.__write\<close> (lines 75-84).\<close>

definition Compiler_write ::
  "'w system \<Rightarrow> compiler \<Rightarrow> string \<Rightarrow> string \<Rightarrow> 'w \<Rightarrow> (error + unit) \<times> 'w" where
  "Compiler_write sys c build_filepath payload w =
     (let target = path_join (target_path (project c)) build_filepath
      in case (if \<not> path_exists sys (dirname target) w
               then makedirs sys (dirname target) w else (Inr (), w)) of
           (Inl e, w1) \<Rightarrow> (Inl e, w1)
         | (Inr u, w1) \<Rightarrow>
             (let w2 = print_line sys target w1
              in write_file sys target (Payload payload) w2))"

text \<open>
  \<^verbatim>\<open>Compiler.compile_model\<close> (lines 133-153). After the check of \<^verbatim>\<open>enabled\<close> the
  template is loaded (line 141), the context is built (line 143) and the resolver is
  constructed (line 144), in this order; each of the three can raise, and the first two
  come before the graph is touched. The result is Python's \<^verbatim>\<open>None\<close>, \<^verbatim>\<open>True\<close> or
  \<^verbatim>\<open>False\<close>; a statement is false when it is \<^verbatim>\<open>None\<close> or empty.
\<close>

definition compile_model ::
  "'w system \<Rightarrow> compiler \<Rightarrow> graph \<Rightarrow> model \<Rightarrow> model list \<Rightarrow> 'w \<Rightarrow>
     (error + bool option) \<times> graph \<times> 'w" where
  "compile_model sys c linker m models w =
     (let model_config = config m
      in if \<not> truthy (dict_get model_config ''enabled'') then (Inr None, linker, w)
         else
           (case template m of
              None \<Rightarrow> (Inl TemplateLoadError, linker, w)
            | Some tmpl \<Rightarrow>
                (case project_context (project c) of
                   Inl e \<Rightarrow> (Inl e, linker, w)
                 | Inr ctx \<Rightarrow>
                     (case Compiler_ref c linker ctx m models of
                        Inl e \<Rightarrow> (Inl e, linker, w)
                      | Inr (linker1, ref) \<Rightarrow>
                          (case render ref tmpl linker1 of
                             (Inl e, linker2) \<Rightarrow> (Inl e, linker2, w)
                           | (Inr rendered, linker2) \<Rightarrow>
                               (case model_compile c m rendered of
                                  None \<Rightarrow> (Inr (Some False), linker2, w)
                                | Some stmt \<Rightarrow>
                                    if stmt \<noteq> [] then
                                      (case Compiler_write sys c (build_path m) stmt w of
                                         (Inl e, w1) \<Rightarrow> (Inl e, linker2, w1)
                                       | (Inr u, w1) \<Rightarrow> (Inr (Some True), linker2, w1))
                                    else (Inr (Some False), linker2, w)))))))"

text \<open>\<^verbatim>\<open>Compiler.__write_graph_file\<close> (lines 155-158).\<close>

definition graph_path :: "compiler \<Rightarrow> string" where
  "graph_path c =
     (let filename = ''graph-'' @ label (create_template c) @ ''.yml''
      in path_join (target_path (project c)) filename)"

definition Compiler_write_graph_file ::
  "'w system \<Rightarrow> compiler \<Rightarrow> graph \<Rightarrow> 'w \<Rightarrow> (error + unit) \<times> 'w" where
  "Compiler_write_graph_file sys c linker w = write_graph sys linker (graph_path c) w"

text \<open>The loops of \<^verbatim>\<open>compile\<close> (lines 170-173 and 180-183): \<open>compiled\<close> collects the
  true results.\<close>

fun compile_loop ::
  "'w system \<Rightarrow> compiler \<Rightarrow> graph \<Rightarrow> model list \<Rightarrow> model list \<Rightarrow> bool option list \<Rightarrow> 'w \<Rightarrow>
     (error + bool option list) \<times> graph \<times> 'w" where
  "compile_loop sys c linker [] models compiled w = (Inr compiled, linker, w)"
| "compile_loop sys c linker (m # ms) models compiled w =
     (case compile_model sys c linker m models w of
        (Inl e, linker1, w1) \<Rightarrow> (Inl e, linker1, w1)
      | (Inr r, linker1, w1) \<Rightarrow>
          compile_loop sys c linker1 ms models
            (if r = Some True then compiled @ [r] else compiled) w1)"

text \<open>Lines 168-185 of \<^verbatim>\<open>compile\<close>: what runs once the pool is validated.\<close>

definition compile_validated ::
  "'w system \<Rightarrow> compiler \<Rightarrow> model list \<Rightarrow> 'w \<Rightarrow> (error + nat \<times> nat) \<times> 'w" where
  "compile_validated sys c models w =
     (case compile_loop sys c DiGraph models models [] w of
        (Inl e, model_linker, w1) \<Rightarrow> (Inl e, w1)
      | (Inr compiled_models, model_linker, w1) \<Rightarrow>
          (case Compiler_write_graph_file sys c model_linker w1 of
             (Inl e, w2) \<Rightarrow> (Inl e, w2)
           | (Inr u, w2) \<Rightarrow>
               (case compile_loop sys c DiGraph (analysis_sources c (project c)) models [] w2 of
                  (Inl e, analysis_linker, w3) \<Rightarrow> (Inl e, w3)
                | (Inr compiled_analyses, analysis_linker, w3) \<Rightarrow>
                    (Inr (length compiled_models, length compiled_analyses), w3))))"

text \<open>Lines 161-164 of \<^verbatim>\<open>compile\<close>: the candidate pool, the primary project's models
  followed by those of each dependency project.\<close>

definition discover :: "'w system \<Rightarrow> compiler \<Rightarrow> 'w \<Rightarrow> error + model list" where
  "discover sys c w =
     (let models = model_sources c (project c)
      in case dependency_projects sys c w of
           Inl e \<Rightarrow> Inl e
         | Inr projects \<Rightarrow> Inr (models @ concat (map (model_sources c) projects)))"

text \<open>\<^verbatim>\<open>Compiler.compile\<close> (lines 160-185).\<close>

definition compile :: "'w system \<Rightarrow> compiler \<Rightarrow> 'w \<Rightarrow> (error + nat \<times> nat) \<times> 'w" where
  "compile sys c w =
     (case discover sys c w of
        Inl e \<Rightarrow> (Inl e, w)
      | Inr models \<Rightarrow>
          (case validate_models_unique models of
             Inl e \<Rightarrow> (Inl e, w)
           | Inr u \<Rightarrow> compile_validated sys c models w))"

section \<open>Topological ordering\<close>

text \<open>
  Modelled from the spec: \<^verbatim>\<open>nx.topological_sort(graph, nbunch)\<close> belongs to a third-party
  library and is not under \<^verbatim>\<open>src/\<close>. The spec (4.1) asks for all the nodes, or only
  those of the subset when one is given, in an order in which every edge goes forward,
  for a cycle error when the graph restricted to these nodes is not acyclic, and for a
  deterministic choice among unconstrained nodes, insertion order being acceptable. The
  model emits, again and again, the first remaining node none of whose predecessors
  remains, and fails when nodes remain and none can be emitted.
\<close>

definition ready :: "('a \<times> 'a) list \<Rightarrow> 'a list \<Rightarrow> 'a \<Rightarrow> bool" where
  "ready es remaining n = (\<not> list_ex (\<lambda>(u, v). v = n \<and> u \<in> set remaining) es)"

function topological_order :: "('a \<times> 'a) list \<Rightarrow> 'a list \<Rightarrow> error + 'a list" where
  "topological_order es remaining =
     (if remaining = [] then Inr []
      else case find (ready es remaining) remaining of
             None \<Rightarrow> Inl CyclicDependency
           | Some n \<Rightarrow>
               (case topological_order es (removeAll n remaining) of
                  Inl e \<Rightarrow> Inl e
                | Inr order \<Rightarrow> Inr (n # order)))"
  by pat_completeness auto
termination
  by (relation "measure (\<lambda>(es, remaining). length remaining)")
     (auto simp: find_Some_iff length_removeAll_less)

declare topological_order.simps [simp del]

definition topological_sort :: "graph \<Rightarrow> fqn list option \<Rightarrow> error + fqn list" where
  "topological_sort g nbunch =
     topological_order (edges g)
       (case nbunch of
          None \<Rightarrow> nodes g
        | Some bunch \<Rightarrow> filter (\<lambda>n. n \<in> set bunch) (nodes g))"

text \<open>\<^verbatim>\<open>Linker.as_dependency_list\<close> (lines 18-19).\<close>

definition as_dependency_list :: "graph \<Rightarrow> fqn list option \<Rightarrow> error + fqn list" where
  "as_dependency_list linker limit_to = topological_sort linker limit_to"

text \<open>
  The words of the ordering claim: \<open>u\<close> stands before \<open>v\<close> in a list; the nodes an
  ordering is asked for; the edges among them; a graph whose edges join nodes of its own
  (what \<open>add_node\<close> and \<open>add_edge\<close> build).
\<close>

definition comes_before :: "'a \<Rightarrow> 'a \<Rightarrow> 'a list \<Rightarrow> bool" where
  "comes_before u v xs = (v \<in> set xs \<and> u \<in> set (takeWhile (\<lambda>x. x \<noteq> v) xs))"

definition relevant :: "graph \<Rightarrow> fqn list option \<Rightarrow> fqn set" where
  "relevant g limit_to =
     (case limit_to of None \<Rightarrow> set (nodes g) | Some bunch \<Rightarrow> set (nodes g) \<inter> set bunch)"

definition restricted :: "('a \<times> 'a) list \<Rightarrow> 'a set \<Rightarrow> ('a \<times> 'a) set" where
  "restricted es R = {(u, v). (u, v) \<in> set es \<and> u \<in> R \<and> v \<in> R}"

definition has_cycle :: "graph \<Rightarrow> fqn list option \<Rightarrow> bool" where
  "has_cycle g limit_to = (\<not> acyclic (restricted (edges g) (relevant g limit_to)))"

definition graph_ok :: "graph \<Rightarrow> bool" where
  "graph_ok g = list_all (\<lambda>(u, v). u \<in> set (nodes g) \<and> v \<in> set (nodes g)) (edges g)"

section \<open>Words of the claims\<close>

text \<open>A candidate matches a terminal name and, when one is supplied, a package namespace;
  the namespace an error names; the arguments of a call of the injected callable for a name
  and an optional package.\<close>

definition matches :: "string \<Rightarrow> string option \<Rightarrow> model \<Rightarrow> bool" where
  "matches nm package_namespace m =
     (name m = nm \<and> (case package_namespace of None \<Rightarrow> True | Some p \<Rightarrow> project_name m = p))"

definition namespace_searched :: "string option \<Rightarrow> string" where
  "namespace_searched package_namespace = (case package_namespace of None \<Rightarrow> ''ANY'' | Some p \<Rightarrow> p)"

definition ref_args :: "string \<Rightarrow> string option \<Rightarrow> string list" where
  "ref_args nm package_namespace = (case package_namespace of None \<Rightarrow> [nm] | Some p \<Rightarrow> [p, nm])"




definition write_then_read :: "'w system \<Rightarrow> bool" where
  "write_then_read sys =
     (\<forall>p body w w'. write_file sys p body w = (Inr (), w') \<longrightarrow> file_content sys p w' = Some body)"

section \<open>Example values\<close>

text \<open>
  An operating system for the examples. Its state lists the directories, the files and
  the lines printed. It knows plain paths only: relative paths made of names, none of
  them empty, \<^verbatim>\<open>.\<close> or \<^verbatim>\<open>..\<close>, such as \<^verbatim>\<open>target/a.sql\<close>. Any other path does not exist
  for it and cannot be created.
\<close>

record world =
  dirs :: "string list"
  files :: "(string \<times> content) list"
  stdout :: "string list"

fun segments_from :: "string \<Rightarrow> string \<Rightarrow> string list" where
  "segments_from acc [] = [acc]"
| "segments_from acc (ch # cs) =
     (if ch = CHR ''/'' then acc # segments_from [] cs else segments_from (acc @ [ch]) cs)"

definition plain :: "string \<Rightarrow> bool" where
  "plain p = list_all (\<lambda>s. s \<noteq> [] \<and> s \<noteq> ''.'' \<and> s \<noteq> ''..'') (segments_from [] p)"

text \<open>The path itself and the directories above it: \<^verbatim>\<open>a\<close>, \<^verbatim>\<open>a/b\<close>, \<^verbatim>\<open>a/b/c\<close>
  for \<^verbatim>\<open>a/b/c\<close>.\<close>

fun ancestors_from :: "string \<Rightarrow> string \<Rightarrow> string list" where
  "ancestors_from acc [] = (if acc = [] then [] else [acc])"
| "ancestors_from acc (ch # cs) =
     (if ch = CHR ''/'' \<and> acc \<noteq> [] then [acc] else []) @ ancestors_from (acc @ [ch]) cs"

definition plain_exists :: "string \<Rightarrow> world \<Rightarrow> bool" where
  "plain_exists p w = (plain p \<and> (p \<in> set (dirs w) \<or> p \<in> fst ` set (files w)))"

definition plain_isdir :: "string \<Rightarrow> world \<Rightarrow> bool" where
  "plain_isdir p w = (plain p \<and> p \<in> set (dirs w))"

definition plain_makedirs :: "string \<Rightarrow> world \<Rightarrow> (error + unit) \<times> world" where
  "plain_makedirs p w =
     (if \<not> plain p \<or> p \<in> set (dirs w) \<or>
         (\<exists>q \<in> set (ancestors_from [] p). q \<in> fst ` set (files w))
      then (Inl OSError, w)
      else (Inr (), w\<lparr>dirs := dirs w @ filter (\<lambda>q. q \<notin> set (dirs w)) (ancestors_from [] p)\<rparr>))"

definition plain_write :: "string \<Rightarrow> content \<Rightarrow> world \<Rightarrow> (error + unit) \<times> world" where
  "plain_write p body w =
     (if \<not> plain p \<or> p \<in> set (dirs w) \<or> (dirname p \<noteq> [] \<and> dirname p \<notin> set (dirs w))
      then (Inl IOError, w)
      else (Inr (), w\<lparr>files := (p, body) # filter (\<lambda>(q, old). q \<noteq> p) (files w)\<rparr>))"

definition child_name :: "string \<Rightarrow> string \<Rightarrow> string option" where
  "child_name d p =
     (let pre = path_join d [];
          rest = drop (length pre) p
      in if take (length pre) p = pre \<and> rest \<noteq> [] \<and> CHR ''/'' \<notin> set rest then Some rest else None)"

definition plain_listdir :: "string \<Rightarrow> world \<Rightarrow> error + string list" where
  "plain_listdir d w =
     (if plain_isdir d w
      then Inr (remdups (List.map_filter (child_name d) (dirs w @ map fst (files w))))
      else Inl OSError)"

definition plain_print :: "string \<Rightarrow> world \<Rightarrow> world" where
  "plain_print line w = w\<lparr>stdout := stdout w @ [line]\<rparr>"

definition plain_content :: "string \<Rightarrow> world \<Rightarrow> content option" where
  "plain_content p w = (if plain p then map_of (files w) p else None)"

definition plain_os :: "world system" where
  "plain_os =
     \<lparr>path_exists = plain_exists, path_isdir = plain_isdir, listdir = plain_listdir,
      makedirs = plain_makedirs, write_file = plain_write, print_line = plain_print,
      file_content = plain_content\<rparr>"


definition initialized_world :: world where
  "initialized_world = \<lparr>dirs = [''target'', ''dbt_modules''], files = [], stdout = []\<rparr>"


text \<open>Two adapters (an identity transform and a prefixing one), a project, a compiler over a
  given pool whose statement construction returns the rendered text, and one whose
  statement construction declines.\<close>

definition build_adapter :: create_template where
  "build_adapter = \<lparr>model_name = (\<lambda>base_name. base_name), label = ''build''\<rparr>"

definition test_adapter :: create_template where
  "test_adapter = \<lparr>model_name = (\<lambda>base_name. ''test_'' @ base_name), label = ''test''\<rparr>"

definition example_context :: pycontext where
  "example_context = [(''env'', [(''schema'', ''analytics'')])]"

definition example_project :: project where
  "example_project =
     \<lparr>target_path = ''target'', modules_path = ''dbt_modules'',
      source_paths = Some [''models''], analysis_paths = None,
      project_context = Inr example_context\<rparr>"

definition example_compiler :: "create_template \<Rightarrow> model list \<Rightarrow> compiler" where
  "example_compiler adapter pool =
     \<lparr>project = example_project, create_template = adapter,
      read_project = (\<lambda>path. example_project),
      get_models = (\<lambda>p paths. pool),
      get_analyses = (\<lambda>p paths. []),
      model_compile = (\<lambda>m rendered. Some rendered)\<rparr>"

definition declining_compiler :: "model list \<Rightarrow> compiler" where
  "declining_compiler pool =
     (example_compiler build_adapter pool)\<lparr>model_compile := (\<lambda>m rendered. None)\<rparr>"

text \<open>Pools: one with a name shared by two packages; one of a model that refers to an
  enabled model; one of the same model and a disabled one; and models whose config has no
  \<^verbatim>\<open>enabled\<close> key or whose template does not load.\<close>

definition example_pool :: "model list" where
  "example_pool =
     [\<lparr>name = ''a'', fqn = [''proj'', ''a''], project_name = ''proj'',
        config = [(''enabled'', PyBool True)], template = Some [], build_path = ''a.sql''\<rparr>,
      \<lparr>name = ''b'', fqn = [''proj'', ''b''], project_name = ''proj'',
        config = [(''enabled'', PyBool True)], template = Some [], build_path = ''b.sql''\<rparr>,
      \<lparr>name = ''b'', fqn = [''pkg'', ''b''], project_name = ''pkg'',
        config = [(''enabled'', PyBool True)], template = Some [], build_path = ''pkg/b.sql''\<rparr>]"

definition referring_model :: model where
  "referring_model =
     \<lparr>name = ''a'', fqn = [''proj'', ''a''], project_name = ''proj'',
      config = [(''enabled'', PyBool True)],
      template = Some [Text ''select * from '', Call [''b'']], build_path = ''a.sql''\<rparr>"

definition referenced_model :: model where
  "referenced_model =
     \<lparr>name = ''b'', fqn = [''proj'', ''b''], project_name = ''proj'',
      config = [(''enabled'', PyBool True)],
      template = Some [Text ''select 1''], build_path = ''b.sql''\<rparr>"

definition disabled_model :: model where
  "disabled_model =
     \<lparr>name = ''b'', fqn = [''proj'', ''b''], project_name = ''proj'',
      config = [(''enabled'', PyBool False)],
      template = Some [Text ''select 1''], build_path = ''b.sql''\<rparr>"

definition enabled_pool :: "model list" where
  "enabled_pool = [referring_model, referenced_model]"

definition disabled_pool :: "model list" where
  "disabled_pool = [referring_model, disabled_model]"

definition unconfigured_model :: model where
  "unconfigured_model =
     \<lparr>name = ''u'', fqn = [''proj'', ''u''], project_name = ''proj'',
      config = [], template = Some [Raise], build_path = ''u.sql''\<rparr>"

definition unloadable_model :: model where
  "unloadable_model =
     \<lparr>name = ''x'', fqn = [''proj'', ''x''], project_name = ''proj'',
      config = [(''enabled'', PyBool True)], template = None, build_path = ''x.sql''\<rparr>"

definition linked_graph :: graph where
  "linked_graph =
     \<lparr>nodes = [[''proj'', ''a''], [''proj'', ''b'']],
      edges = [([''proj'', ''b''], [''proj'', ''a''])]\<rparr>"

definition chain_graph :: graph where
  "chain_graph = dependency [''proj'', ''c''] [''proj'', ''b'']
                   (dependency [''proj'', ''b''] [''proj'', ''a''] (add_node [''proj'', ''z''] DiGraph))"

definition cyclic_graph :: graph where
  "cyclic_graph = dependency [''proj'', ''a''] [''proj'', ''b'']
                    (dependency [''proj'', ''b''] [''proj'', ''a''] DiGraph)"

section \<open>Properties of reference resolution\<close>

lemma find_scan_filter:
  "find_scan ms nm ns found = found @ filter (matches nm ns) ms"
  by (induction ms arbitrary: found) (auto simp: matches_def split: option.splits)

text \<open>
  C1. Over any candidate pool, \<open>find_model_by_name\<close> fails with the not-found error,
  naming the target and the namespace searched (\<open>ANY\<close> when unqualified), when no
  candidate matches; fails with the ambiguity error, naming the target, the namespace,
  the number of matches and the matching candidates, when more than one matches; and
  returns the matching candidate when exactly one matches.
\<close>

theorem find_model_by_name_cases:
  "(filter (matches nm ns) pool = [] \<longrightarrow>
      find_model_by_name pool nm ns = Inl (ReferenceNotFound nm (namespace_searched ns))) \<and>
   (1 < length (filter (matches nm ns) pool) \<longrightarrow>
      find_model_by_name pool nm ns =
        Inl (AmbiguousReference nm (namespace_searched ns)
               (length (filter (matches nm ns) pool)) (filter (matches nm ns) pool))) \<and>
   (\<forall>m. filter (matches nm ns) pool = [m] \<longrightarrow> find_model_by_name pool nm ns = Inr m)"
  by (simp add: find_model_by_name_def find_scan_filter namespace_searched_def Let_def)

theorem find_model_by_name_cases_witness:
  "find_model_by_name example_pool ''c'' None = Inl (ReferenceNotFound ''c'' ''ANY'') \<and>
   find_model_by_name example_pool ''b'' None =
     Inl (AmbiguousReference ''b'' ''ANY'' 2 [example_pool ! 1, example_pool ! 2]) \<and>
   find_model_by_name example_pool ''b'' (Some ''pkg'') = Inr (example_pool ! 2)"
  using find_model_by_name_cases [of "''c''" None example_pool]
    find_model_by_name_cases [of "''b''" None example_pool]
    find_model_by_name_cases [of "''b''" "Some ''pkg''" example_pool]
  by (simp add: example_pool_def matches_def namespace_searched_def)

section \<open>Properties of the linker and of the resolver\<close>

lemma nodes_add_node: "set (nodes (add_node n g)) = insert n (set (nodes g))"
  by (auto simp: add_node_def)

lemma edges_add_node: "edges (add_node n g) = edges g"
  by (simp add: add_node_def)

lemma nodes_add_edge: "set (nodes (add_edge u v g)) = insert u (insert v (set (nodes g)))"
  by (auto simp: add_edge_def Let_def nodes_add_node)

lemma edges_add_edge:
  "edges (add_edge u v g) = (if (u, v) \<in> set (edges g) then edges g else edges g @ [(u, v)])"
  by (simp add: add_edge_def Let_def edges_add_node)

lemma nodes_dependency:
  "set (nodes (dependency node1 node2 g)) = insert node1 (insert node2 (set (nodes g)))"
  by (auto simp: dependency_def nodes_add_edge nodes_add_node)

lemma edges_dependency:
  "edges (dependency node1 node2 g) =
     (if (node2, node1) \<in> set (edges g) then edges g else edges g @ [(node2, node1)])"
  by (simp add: dependency_def edges_add_edge edges_add_node)

lemma set_edges_dependency:
  "set (edges (dependency node1 node2 g)) = insert (node2, node1) (set (edges g))"
  by (auto simp: edges_dependency)

lemma graph_ok_DiGraph: "graph_ok DiGraph"
  by (simp add: graph_ok_def DiGraph_def)

lemma graph_ok_add_node: "graph_ok g \<Longrightarrow> graph_ok (add_node n g)"
  by (auto simp: graph_ok_def list_all_iff nodes_add_node edges_add_node)

lemma graph_ok_dependency: "graph_ok g \<Longrightarrow> graph_ok (dependency node1 node2 g)"
  unfolding graph_ok_def list_all_iff nodes_dependency set_edges_dependency by auto

lemma find_model_by_name_Inr:
  "find_model_by_name pool nm ns = Inr m \<Longrightarrow> filter (matches nm ns) pool = [m]"
  by (auto simp: find_model_by_name_def find_scan_filter Let_def length_Suc_conv split: if_splits)

lemma find_model_by_name_name:
  "find_model_by_name pool nm ns = Inr m \<Longrightarrow> name m = nm \<and> m \<in> set pool"
proof -
  assume "find_model_by_name pool nm ns = Inr m"
  then have "filter (matches nm ns) pool = [m]" by (rule find_model_by_name_Inr)
  then have "m \<in> set (filter (matches nm ns) pool)" by simp
  then show ?thesis by (simp add: matches_def)
qed

lemma do_ref_resolved:
  "find_model_by_name pool nm ns = Inr m \<Longrightarrow>
   do_ref c sch src pool (ref_args nm ns) g =
     (Inr (quoted sch @ ''.'' @ quoted (model_name (create_template c) nm)),
      dependency src (butlast (fqn m) @ [model_name (create_template c) nm]) g)"
  by (cases ns) (simp_all add: do_ref_def ref_args_def ref_register_def Let_def)

lemma do_ref_success:
  assumes "do_ref c sch src pool args g = (Inr s, g')"
  shows "\<exists>nm ns m. args = ref_args nm ns \<and> find_model_by_name pool nm ns = Inr m"
proof -
  from assms have l: "length args = 1 \<or> length args = 2"
    by (auto simp: do_ref_def split: if_splits)
  then show ?thesis
  proof
    assume "length args = 1"
    then obtain nm where a: "args = [nm]" by (auto simp: length_Suc_conv)
    with assms obtain m where "find_model_by_name pool nm None = Inr m"
      by (auto simp: do_ref_def ref_register_def split: sum.splits)
    with a have "args = ref_args nm None \<and> find_model_by_name pool nm None = Inr m"
      by (simp add: ref_args_def)
    then show ?thesis by blast
  next
    assume "length args = 2"
    then obtain pkg nm where a: "args = [pkg, nm]"
      by (auto simp: length_Suc_conv numeral_2_eq_2)
    with assms obtain m where "find_model_by_name pool nm (Some pkg) = Inr m"
      by (auto simp: do_ref_def ref_register_def split: sum.splits)
    with a have "args = ref_args nm (Some pkg) \<and> find_model_by_name pool nm (Some pkg) = Inr m"
      by (simp add: ref_args_def)
    then show ?thesis by blast
  qed
qed

lemma Compiler_ref_Inr:
  "Compiler_ref c linker ctx m pool = Inr (g0, ref) \<Longrightarrow>
     \<exists>env sch. map_of ctx ''env'' = Some env \<and> map_of env ''schema'' = Some sch \<and>
       g0 = add_node (fqn m) linker \<and> ref = do_ref c sch (fqn m) pool"
  by (auto simp: Compiler_ref_def Let_def split: option.splits)

text \<open>
  C2. Let the resolver be constructed for a source model under a rendering context. Every
  call of the injected callable that returns has resolved its arguments to a model \<open>m\<close>
  of the pool; it returns the double quote, the schema that the context holds under
  \<^verbatim>\<open>env\<close> and \<^verbatim>\<open>schema\<close>, the three characters quote, dot, quote, the rendered name and
  a double quote; the edge from the output FQN of \<open>m\<close> (its FQN with the last segment
  replaced by the rendered name) to the FQN of the source model is in the graph
  afterwards and no other edge has been added: the edge list grows by this one edge
  unless the edge was there already, and then it stays as it is. The returned text is
  what the rendering splices into the output.
\<close>

theorem do_ref_registers_edge_and_returns_text:
  assumes "Compiler_ref c linker ctx source pool = Inr (g0, ref)"
    and "ref args g = (Inr s, g')"
  shows "\<exists>env sch nm ns m.
          map_of ctx ''env'' = Some env \<and> map_of env ''schema'' = Some sch \<and>
          args = ref_args nm ns \<and> find_model_by_name pool nm ns = Inr m \<and> name m = nm \<and>
          s = [CHR 0x22] @ sch @ [CHR 0x22, CHR ''.'', CHR 0x22] @
                model_name (create_template c) (name m) @ [CHR 0x22] \<and>
          g' = dependency (fqn source)
                 (butlast (fqn m) @ [model_name (create_template c) (name m)]) g \<and>
          set (edges g') =
            insert (butlast (fqn m) @ [model_name (create_template c) (name m)], fqn source)
              (set (edges g)) \<and>
          edges g' =
            (if (butlast (fqn m) @ [model_name (create_template c) (name m)], fqn source)
                  \<in> set (edges g)
             then edges g
             else edges g @
                    [(butlast (fqn m) @ [model_name (create_template c) (name m)], fqn source)]) \<and>
          render ref (Call args # its) g =
            (case render ref its g' of
               (Inl e, g2) \<Rightarrow> (Inl e, g2)
             | (Inr out, g2) \<Rightarrow> (Inr (s @ out), g2))"
proof -
  from Compiler_ref_Inr [OF assms(1)] obtain env sch where
    e: "map_of ctx ''env'' = Some env" and sc: "map_of env ''schema'' = Some sch" and
    r: "ref = do_ref c sch (fqn source) pool" by blast
  from assms(2) r have d: "do_ref c sch (fqn source) pool args g = (Inr s, g')" by simp
  from do_ref_success [OF d] obtain nm ns m where
    a: "args = ref_args nm ns" and f: "find_model_by_name pool nm ns = Inr m" by blast
  from f have n: "nm = name m" by (simp add: find_model_by_name_name)
  have "do_ref c sch (fqn source) pool (ref_args nm ns) g =
     (Inr (quoted sch @ ''.'' @ quoted (model_name (create_template c) (name m))),
      dependency (fqn source) (butlast (fqn m) @ [model_name (create_template c) (name m)]) g)"
    using do_ref_resolved [OF f, of c sch "fqn source" g] unfolding n .
  with d a have s: "s = [CHR 0x22] @ sch @ [CHR 0x22, CHR ''.'', CHR 0x22] @
                model_name (create_template c) (name m) @ [CHR 0x22]"
    and g': "g' = dependency (fqn source)
                 (butlast (fqn m) @ [model_name (create_template c) (name m)]) g"
    by (simp_all add: quoted_def)
  have se: "set (edges g') =
            insert (butlast (fqn m) @ [model_name (create_template c) (name m)], fqn source)
              (set (edges g))"
    unfolding g' by (rule set_edges_dependency)
  have l: "edges g' =
            (if (butlast (fqn m) @ [model_name (create_template c) (name m)], fqn source)
                  \<in> set (edges g)
             then edges g
             else edges g @
                    [(butlast (fqn m) @ [model_name (create_template c) (name m)], fqn source)])"
    unfolding g' by (rule edges_dependency)
  have rd: "render ref (Call args # its) g =
            (case render ref its g' of
               (Inl e, g2) \<Rightarrow> (Inl e, g2)
             | (Inr out, g2) \<Rightarrow> (Inr (s @ out), g2))"
    using assms(2) by simp
  from e sc a f n s g' se l rd show ?thesis by blast
qed

theorem do_ref_registers_edge_and_returns_text_witness:
  "Compiler_ref (example_compiler test_adapter enabled_pool) DiGraph example_context
       referring_model enabled_pool =
     Inr (add_node [''proj'', ''a''] DiGraph,
          do_ref (example_compiler test_adapter enabled_pool) ''analytics'' [''proj'', ''a'']
            enabled_pool) \<and>
   do_ref (example_compiler test_adapter enabled_pool) ''analytics'' [''proj'', ''a'']
       enabled_pool [''b''] (add_node [''proj'', ''a''] DiGraph) =
     (Inr ([CHR 0x22] @ ''analytics'' @ [CHR 0x22, CHR ''.'', CHR 0x22] @ ''test_b'' @ [CHR 0x22]),
      \<lparr>nodes = [[''proj'', ''a''], [''proj'', ''test_b'']],
       edges = [([''proj'', ''test_b''], [''proj'', ''a''])]\<rparr>) \<and>
   find_model_by_name enabled_pool ''b'' None = Inr referenced_model \<and>
   render (do_ref (example_compiler test_adapter enabled_pool) ''analytics'' [''proj'', ''a'']
       enabled_pool) [Call [''b''], Text '' t''] (add_node [''proj'', ''a''] DiGraph) =
     (Inr ([CHR 0x22] @ ''analytics'' @ [CHR 0x22, CHR ''.'', CHR 0x22] @ ''test_b'' @
             [CHR 0x22] @ '' t''),
      \<lparr>nodes = [[''proj'', ''a''], [''proj'', ''test_b'']],
       edges = [([''proj'', ''test_b''], [''proj'', ''a''])]\<rparr>)"
proof -
  have h1: "Compiler_ref (example_compiler test_adapter enabled_pool) DiGraph example_context
       referring_model enabled_pool =
     Inr (add_node [''proj'', ''a''] DiGraph,
          do_ref (example_compiler test_adapter enabled_pool) ''analytics'' [''proj'', ''a'']
            enabled_pool)"
    by (simp add: Compiler_ref_def example_context_def referring_model_def Let_def)
  have h2: "do_ref (example_compiler test_adapter enabled_pool) ''analytics'' [''proj'', ''a'']
       enabled_pool [''b''] (add_node [''proj'', ''a''] DiGraph) =
     (Inr ([CHR 0x22] @ ''analytics'' @ [CHR 0x22, CHR ''.'', CHR 0x22] @ ''test_b'' @ [CHR 0x22]),
      \<lparr>nodes = [[''proj'', ''a''], [''proj'', ''test_b'']],
       edges = [([''proj'', ''test_b''], [''proj'', ''a''])]\<rparr>)"
    by code_simp
  from do_ref_registers_edge_and_returns_text [OF h1 h2, of "[Text '' t'']"] obtain nm ns m where
    a: "[''b''] = ref_args nm ns" and f: "find_model_by_name enabled_pool nm ns = Inr m" and
    r: "render (do_ref (example_compiler test_adapter enabled_pool) ''analytics'' [''proj'', ''a'']
          enabled_pool) [Call [''b''], Text '' t''] (add_node [''proj'', ''a''] DiGraph) =
        (case render (do_ref (example_compiler test_adapter enabled_pool) ''analytics''
                 [''proj'', ''a''] enabled_pool) [Text '' t'']
               \<lparr>nodes = [[''proj'', ''a''], [''proj'', ''test_b'']],
                 edges = [([''proj'', ''test_b''], [''proj'', ''a''])]\<rparr> of
           (Inl e, g2) \<Rightarrow> (Inl e, g2)
         | (Inr out, g2) \<Rightarrow>
             (Inr (([CHR 0x22] @ ''analytics'' @ [CHR 0x22, CHR ''.'', CHR 0x22] @ ''test_b'' @
                      [CHR 0x22]) @ out), g2))"
    by blast
  from a have "nm = ''b'' \<and> ns = None"
    by (cases ns) (simp_all add: ref_args_def)
  with f have f0: "find_model_by_name enabled_pool ''b'' None = Inr m" by simp
  moreover have "find_model_by_name enabled_pool ''b'' None = Inr referenced_model" by code_simp
  ultimately have m: "m = referenced_model" by simp
  from h1 h2 f0 m r show ?thesis by simp
qed

text \<open>
  A successful call need not add an edge: when the edge is in the graph already, as after
  an earlier call with the same argument, the call returns the text and leaves the graph
  as it is; a template that refers to the same model twice ends with the one edge.
\<close>

theorem repeated_reference_adds_no_edge_counterexample:
  "do_ref (example_compiler build_adapter enabled_pool) ''analytics'' [''proj'', ''a'']
       enabled_pool [''b''] linked_graph =
     (Inr ([CHR 0x22] @ ''analytics'' @ [CHR 0x22, CHR ''.'', CHR 0x22] @ ''b'' @ [CHR 0x22]),
      linked_graph) \<and>
   edges linked_graph = [([''proj'', ''b''], [''proj'', ''a''])] \<and>
   snd (render (do_ref (example_compiler build_adapter enabled_pool) ''analytics''
          [''proj'', ''a''] enabled_pool) [Call [''b''], Call [''b'']]
          (add_node [''proj'', ''a''] DiGraph)) = linked_graph"
  by code_simp

section \<open>Properties of compiling one model\<close>

lemma do_ref_nodes: "set (nodes g) \<subseteq> set (nodes (snd (do_ref c sch src pool args g)))"
  by (auto simp: do_ref_def ref_register_def Let_def nodes_dependency split: sum.splits)

lemma do_ref_edges: "set (edges g) \<subseteq> set (edges (snd (do_ref c sch src pool args g)))"
  by (auto simp: do_ref_def ref_register_def Let_def set_edges_dependency split: sum.splits)

lemma render_keeps:
  assumes "\<And>args g. P g \<Longrightarrow> P (snd (ref args g))"
  shows "P g \<Longrightarrow> P (snd (render ref its g))"
proof (induction its arbitrary: g)
  case Nil
  then show ?case by simp
next
  case (Cons it its)
  show ?case
  proof (cases it)
    case (Text t)
    with Cons.IH [OF Cons.prems] show ?thesis by (auto split: prod.splits sum.splits)
  next
    case (Call args)
    obtain r g1 where r: "ref args g = (r, g1)" by (cases "ref args g")
    with assms [OF Cons.prems, of args] have p1: "P g1" by simp
    show ?thesis
    proof (cases r)
      case (Inl e)
      with r Call p1 show ?thesis by simp
    next
      case (Inr s)
      with r Call Cons.IH [OF p1] show ?thesis by (auto split: prod.splits sum.splits)
    qed
  next
    case Raise
    with Cons.prems show ?thesis by simp
  qed
qed

lemma render_nodes:
  "n \<in> set (nodes g) \<Longrightarrow> n \<in> set (nodes (snd (render (do_ref c sch src pool) its g)))"
  by (rule render_keeps [where P = "\<lambda>g. n \<in> set (nodes g)"]) (use do_ref_nodes in blast)

lemma render_edges:
  "e \<in> set (edges g) \<Longrightarrow> e \<in> set (edges (snd (render (do_ref c sch src pool) its g)))"
  by (rule render_keeps [where P = "\<lambda>g. e \<in> set (edges g)"]) (use do_ref_edges in blast)

lemma compile_model_linker:
  "truthy (dict_get (config m) ''enabled'') \<Longrightarrow> template m = Some its \<Longrightarrow>
   project_context (project c) = Inr ctx \<Longrightarrow> map_of ctx ''env'' = Some env \<Longrightarrow>
   map_of env ''schema'' = Some sch \<Longrightarrow>
   fst (snd (compile_model sys c g m pool w)) =
     snd (render (do_ref c sch (fqn m) pool) its (add_node (fqn m) g))"
  by (auto simp: compile_model_def Compiler_ref_def Let_def
           split: prod.splits sum.splits option.splits)

lemma compile_model_registers:
  assumes "truthy (dict_get (config m) ''enabled'')" "template m = Some its"
    "project_context (project c) = Inr ctx" "map_of ctx ''env'' = Some env"
    "map_of env ''schema'' = Some sch"
  shows "fqn m \<in> set (nodes (fst (snd (compile_model sys c g m pool w))))"
proof -
  have "fqn m \<in> set (nodes (add_node (fqn m) g))" by (simp add: nodes_add_node)
  then have "fqn m \<in> set (nodes (snd (render (do_ref c sch (fqn m) pool) its (add_node (fqn m) g))))"
    by (rule render_nodes)
  with compile_model_linker [OF assms, of sys g pool w] show ?thesis by simp
qed

lemma compile_model_unchanged_or_registered:
  "fst (snd (compile_model sys c g m pool w)) = g \<or>
   fqn m \<in> set (nodes (fst (snd (compile_model sys c g m pool w))))"
proof (cases "truthy (dict_get (config m) ''enabled'')")
  case False
  then show ?thesis by (simp add: compile_model_def)
next
  case en: True
  show ?thesis
  proof (cases "template m")
    case None
    with en show ?thesis by (simp add: compile_model_def)
  next
    case (Some its)
    show ?thesis
    proof (cases "project_context (project c)")
      case (Inl e)
      with en Some show ?thesis by (simp add: compile_model_def)
    next
      case (Inr ctx)
      show ?thesis
      proof (cases "Compiler_ref c g ctx m pool")
        case (Inl e)
        with en Some Inr show ?thesis by (simp add: compile_model_def)
      next
        case r: (Inr p)
        obtain g0 ref where p: "p = (g0, ref)" by (cases p)
        from Compiler_ref_Inr [OF r [unfolded p]] obtain env sch where
          "map_of ctx ''env'' = Some env" "map_of env ''schema'' = Some sch" by blast
        from compile_model_registers [OF en Some Inr this, of sys g pool w] show ?thesis
          by blast
      qed
    qed
  qed
qed

text \<open>
  C4. For an enabled model whose template loads and whose rendering context is built and
  holds \<^verbatim>\<open>env\<close> and \<^verbatim>\<open>schema\<close>, constructing the resolver registers the model's FQN as a
  node before rendering starts; rendering runs from that graph and never removes a node,
  so the FQN is a node of the linker that \<open>compile_model\<close> leaves behind, whatever the
  template calls and whatever statement construction answers. When the template does not
  load, the context cannot be built or a key is missing, \<open>compile_model\<close> raises before
  the resolver exists and leaves the linker and the world as they were.
\<close>

theorem compile_model_registers_loaded_node:
  assumes "truthy (dict_get (config m) ''enabled'')"
  shows "(\<forall>its ctx env sch.
            template m = Some its \<and> project_context (project c) = Inr ctx \<and>
            map_of ctx ''env'' = Some env \<and> map_of env ''schema'' = Some sch \<longrightarrow>
              Compiler_ref c g ctx m pool = Inr (add_node (fqn m) g, do_ref c sch (fqn m) pool) \<and>
              fqn m \<in> set (nodes (add_node (fqn m) g)) \<and>
              fst (snd (compile_model sys c g m pool w)) =
                snd (render (do_ref c sch (fqn m) pool) its (add_node (fqn m) g)) \<and>
              fqn m \<in> set (nodes (fst (snd (compile_model sys c g m pool w))))) \<and>
         (template m = None \<longrightarrow>
            compile_model sys c g m pool w = (Inl TemplateLoadError, g, w)) \<and>
         (\<forall>its e. template m = Some its \<and> project_context (project c) = Inl e \<longrightarrow>
            compile_model sys c g m pool w = (Inl e, g, w)) \<and>
         (\<forall>its ctx. template m = Some its \<and> project_context (project c) = Inr ctx \<and>
            (map_of ctx ''env'' = None \<or>
             (\<exists>env. map_of ctx ''env'' = Some env \<and> map_of env ''schema'' = None)) \<longrightarrow>
            compile_model sys c g m pool w = (Inl KeyError, g, w))"
proof (intro conjI allI impI)
  fix its ctx env sch
  assume h: "template m = Some its \<and> project_context (project c) = Inr ctx \<and>
            map_of ctx ''env'' = Some env \<and> map_of env ''schema'' = Some sch"
  then show "Compiler_ref c g ctx m pool = Inr (add_node (fqn m) g, do_ref c sch (fqn m) pool)"
    by (simp add: Compiler_ref_def Let_def)
  show "fqn m \<in> set (nodes (add_node (fqn m) g))"
    by (simp add: nodes_add_node)
  from h show "fst (snd (compile_model sys c g m pool w)) =
                snd (render (do_ref c sch (fqn m) pool) its (add_node (fqn m) g))"
    using compile_model_linker [OF assms, of its c ctx env sch sys g pool w] by simp
  from h show "fqn m \<in> set (nodes (fst (snd (compile_model sys c g m pool w))))"
    using compile_model_registers [OF assms, of its c ctx env sch sys g pool w] by simp
next
  assume "template m = None"
  with assms show "compile_model sys c g m pool w = (Inl TemplateLoadError, g, w)"
    by (simp add: compile_model_def)
next
  fix its e
  assume "template m = Some its \<and> project_context (project c) = Inl e"
  with assms show "compile_model sys c g m pool w = (Inl e, g, w)"
    by (simp add: compile_model_def)
next
  fix its ctx
  assume "template m = Some its \<and> project_context (project c) = Inr ctx \<and>
            (map_of ctx ''env'' = None \<or>
             (\<exists>env. map_of ctx ''env'' = Some env \<and> map_of env ''schema'' = None))"
  with assms show "compile_model sys c g m pool w = (Inl KeyError, g, w)"
    by (auto simp: compile_model_def Compiler_ref_def)
qed

theorem compile_model_registers_loaded_node_witness:
  "truthy (dict_get (config referring_model) ''enabled'') \<and>
   template referring_model = Some [Text ''select * from '', Call [''b'']] \<and>
   project_context (project (declining_compiler enabled_pool)) = Inr example_context \<and>
   compile_model plain_os (declining_compiler enabled_pool) DiGraph referring_model enabled_pool
       initialized_world =
     (Inr (Some False), linked_graph, initialized_world) \<and>
   [''proj'', ''a''] \<in> set (nodes (fst (snd (compile_model plain_os
       (declining_compiler enabled_pool) DiGraph referring_model enabled_pool
       initialized_world)))) \<and>
   [''proj'', ''a''] \<in> set (nodes (fst (snd (compile_model plain_os
       (declining_compiler [referring_model]) DiGraph referring_model [referring_model]
       initialized_world)))) \<and>
   compile_model plain_os (example_compiler build_adapter [unloadable_model]) chain_graph
       unloadable_model [unloadable_model] initialized_world =
     (Inl TemplateLoadError, chain_graph, initialized_world)"
proof -
  have t: "truthy (dict_get (config referring_model) ''enabled'')"
    by (simp add: referring_model_def dict_get_def)
  have tx: "truthy (dict_get (config unloadable_model) ''enabled'')"
    by (simp add: unloadable_model_def dict_get_def)
  have f: "fqn referring_model = [''proj'', ''a'']"
    and tm: "template referring_model = Some [Text ''select * from '', Call [''b'']]"
    by (simp_all add: referring_model_def)
  have cx: "project_context (project (declining_compiler pool)) = Inr example_context" for pool
    by (simp add: declining_compiler_def example_compiler_def example_project_def)
  have ce: "map_of example_context ''env'' = Some [(''schema'', ''analytics'')]"
    and cs: "map_of [(''schema'', ''analytics'')] ''schema'' = Some ''analytics''"
    by (simp_all add: example_context_def)
  have e: "compile_model plain_os (declining_compiler enabled_pool) DiGraph referring_model
       enabled_pool initialized_world =
     (Inr (Some False), linked_graph, initialized_world)"
    by code_simp
  have n1: "[''proj'', ''a''] \<in> set (nodes (fst (snd (compile_model plain_os
       (declining_compiler enabled_pool) DiGraph referring_model enabled_pool
       initialized_world))))"
    using compile_model_registers_loaded_node [OF t, of "declining_compiler enabled_pool"
        DiGraph enabled_pool plain_os initialized_world] tm cx ce cs
    unfolding f by blast
  have n2: "[''proj'', ''a''] \<in> set (nodes (fst (snd (compile_model plain_os
       (declining_compiler [referring_model]) DiGraph referring_model [referring_model]
       initialized_world))))"
    using compile_model_registers_loaded_node [OF t, of "declining_compiler [referring_model]"
        DiGraph "[referring_model]" plain_os initialized_world] tm cx ce cs
    unfolding f by blast
  have u: "compile_model plain_os (example_compiler build_adapter [unloadable_model]) chain_graph
       unloadable_model [unloadable_model] initialized_world =
     (Inl TemplateLoadError, chain_graph, initialized_world)"
    using compile_model_registers_loaded_node [OF tx,
        of "example_compiler build_adapter [unloadable_model]" chain_graph "[unloadable_model]"
        plain_os initialized_world]
    by (simp add: unloadable_model_def)
  from t tm cx e n1 n2 u show ?thesis by blast
qed

text \<open>
  An enabled model whose template does not load is not registered: \<open>compile_model\<close>
  raises at line 141, before the resolver is constructed, and the graph stays empty.
\<close>

theorem unloadable_model_not_registered_counterexample:
  "truthy (dict_get (config unloadable_model) ''enabled'') \<and>
   compile_model plain_os (example_compiler build_adapter [unloadable_model]) DiGraph
       unloadable_model [unloadable_model] initialized_world =
     (Inl TemplateLoadError, DiGraph, initialized_world) \<and>
   fqn unloadable_model \<notin> set (nodes (fst (snd (compile_model plain_os
       (example_compiler build_adapter [unloadable_model]) DiGraph unloadable_model
       [unloadable_model] initialized_world))))"
  by code_simp

text \<open>
  C5. For a model whose config has \<open>enabled\<close> false, \<open>compile_model\<close> returns \<open>None\<close> and
  leaves the linker and the world as they were: no node, no edge, no file, and, as the
  result is the same for every template, loading or not, no rendering.
\<close>

theorem compile_model_disabled:
  assumes "dict_get (config m) ''enabled'' = PyBool False"
  shows "compile_model sys c linker m pool w = (Inr None, linker, w) \<and>
         (\<forall>t. compile_model sys c linker (m\<lparr>template := t\<rparr>) pool w = (Inr None, linker, w))"
  using assms by (simp add: compile_model_def)

theorem compile_model_disabled_witness:
  "dict_get (config disabled_model) ''enabled'' = PyBool False \<and>
   compile_model plain_os (example_compiler build_adapter disabled_pool) chain_graph disabled_model
       disabled_pool initialized_world = (Inr None, chain_graph, initialized_world) \<and>
   compile_model plain_os (example_compiler build_adapter disabled_pool) chain_graph
       (disabled_model\<lparr>template := Some [Raise]\<rparr>) disabled_pool initialized_world =
     (Inr None, chain_graph, initialized_world) \<and>
   compile_model plain_os (example_compiler build_adapter disabled_pool) chain_graph
       (disabled_model\<lparr>template := None\<rparr>) disabled_pool initialized_world =
     (Inr None, chain_graph, initialized_world)"
proof -
  have h: "dict_get (config disabled_model) ''enabled'' = PyBool False"
    by (simp add: disabled_model_def dict_get_def)
  from h compile_model_disabled [OF h, of plain_os "example_compiler build_adapter disabled_pool"
      chain_graph disabled_pool initialized_world]
  show ?thesis by blast
qed

text \<open>
  C10. A model whose config has no \<open>enabled\<close> key (the lookup yields \<open>None\<close>), or any
  other false value under it, is treated as a disabled one: \<open>compile_model\<close> returns
  \<open>None\<close> with the linker and the world unchanged, which is the result for the same
  model with \<open>enabled\<close> set to false.
\<close>

theorem compile_model_missing_enabled:
  "(map_of (config m) ''enabled'' = None \<longrightarrow>
      dict_get (config m) ''enabled'' = PyNone \<and>
      compile_model sys c linker m pool w = (Inr None, linker, w) \<and>
      compile_model sys c linker m pool w =
        compile_model sys c linker (m\<lparr>config := (''enabled'', PyBool False) # config m\<rparr>) pool w) \<and>
   (\<not> truthy (dict_get (config m) ''enabled'') \<longrightarrow>
      compile_model sys c linker m pool w = (Inr None, linker, w))"
  by (simp add: compile_model_def dict_get_def)

theorem compile_model_missing_enabled_witness:
  "map_of (config unconfigured_model) ''enabled'' = None \<and>
   dict_get (config unconfigured_model) ''enabled'' = PyNone \<and>
   compile_model plain_os (example_compiler build_adapter disabled_pool) chain_graph
       unconfigured_model disabled_pool initialized_world =
     (Inr None, chain_graph, initialized_world) \<and>
   compile_model plain_os (example_compiler build_adapter disabled_pool) chain_graph
       unconfigured_model disabled_pool initialized_world =
     compile_model plain_os (example_compiler build_adapter disabled_pool) chain_graph
       (unconfigured_model\<lparr>config := (''enabled'', PyBool False) # config unconfigured_model\<rparr>)
       disabled_pool initialized_world"
proof -
  have h: "map_of (config unconfigured_model) ''enabled'' = None"
    by (simp add: unconfigured_model_def)
  from h compile_model_missing_enabled [of unconfigured_model plain_os
      "example_compiler build_adapter disabled_pool" chain_graph disabled_pool initialized_world]
  show ?thesis by blast
qed

text \<open>
  C9. After a successful reference to a model \<open>m\<close> the edge registered starts at the FQN
  of \<open>m\<close> with its last segment replaced by the rendered name of \<open>m\<close>, and that FQN is a
  node. Compiling \<open>m\<close> itself either leaves the linker as it was or registers the raw FQN
  of \<open>m\<close>: it does so, before rendering, whenever \<open>m\<close> is enabled, its template loads and
  the context holds the schema. When the FQN ends in the model's name and the naming
  transform changes that name, the two nodes differ.
\<close>

theorem ref_endpoint_is_rendered_fqn:
  assumes "find_model_by_name pool nm ns = Inr m"
  shows "snd (do_ref c sch src pool (ref_args nm ns) g) =
           dependency src (butlast (fqn m) @ [model_name (create_template c) (name m)]) g \<and>
         (butlast (fqn m) @ [model_name (create_template c) (name m)], src)
           \<in> set (edges (snd (do_ref c sch src pool (ref_args nm ns) g))) \<and>
         butlast (fqn m) @ [model_name (create_template c) (name m)]
           \<in> set (nodes (snd (do_ref c sch src pool (ref_args nm ns) g))) \<and>
         (fst (snd (compile_model sys c g' m pool w)) = g' \<or>
          fqn m \<in> set (nodes (fst (snd (compile_model sys c g' m pool w))))) \<and>
         (\<forall>its ctx env sch'.
            truthy (dict_get (config m) ''enabled'') \<and> template m = Some its \<and>
            project_context (project c) = Inr ctx \<and> map_of ctx ''env'' = Some env \<and>
            map_of env ''schema'' = Some sch' \<longrightarrow>
              fst (snd (compile_model sys c g' m pool w)) =
                snd (render (do_ref c sch' (fqn m) pool) its (add_node (fqn m) g')) \<and>
              fqn m \<in> set (nodes (fst (snd (compile_model sys c g' m pool w))))) \<and>
         (fqn m \<noteq> [] \<and> last (fqn m) = name m \<and> model_name (create_template c) (name m) \<noteq> name m \<longrightarrow>
            butlast (fqn m) @ [model_name (create_template c) (name m)] \<noteq> fqn m)"
proof -
  from assms have n: "name m = nm" by (simp add: find_model_by_name_name)
  have a: "snd (do_ref c sch src pool (ref_args nm ns) g) =
           dependency src (butlast (fqn m) @ [model_name (create_template c) (name m)]) g"
    using do_ref_resolved [OF assms, of c sch src g] n by simp
  have b: "(butlast (fqn m) @ [model_name (create_template c) (name m)], src)
           \<in> set (edges (snd (do_ref c sch src pool (ref_args nm ns) g)))"
    by (simp add: a set_edges_dependency)
  have b': "butlast (fqn m) @ [model_name (create_template c) (name m)]
           \<in> set (nodes (snd (do_ref c sch src pool (ref_args nm ns) g)))"
    by (simp add: a nodes_dependency)
  note d = compile_model_unchanged_or_registered [of sys c g' m pool w]
  have d': "\<forall>its ctx env sch'.
            truthy (dict_get (config m) ''enabled'') \<and> template m = Some its \<and>
            project_context (project c) = Inr ctx \<and> map_of ctx ''env'' = Some env \<and>
            map_of env ''schema'' = Some sch' \<longrightarrow>
              fst (snd (compile_model sys c g' m pool w)) =
                snd (render (do_ref c sch' (fqn m) pool) its (add_node (fqn m) g')) \<and>
              fqn m \<in> set (nodes (fst (snd (compile_model sys c g' m pool w))))"
    using compile_model_linker [of m _ c _ _ _ sys g' pool w]
      compile_model_registers [of m _ c _ _ _ sys g' pool w] by blast
  have e: "fqn m \<noteq> [] \<and> last (fqn m) = name m \<and> model_name (create_template c) (name m) \<noteq> name m \<longrightarrow>
            butlast (fqn m) @ [model_name (create_template c) (name m)] \<noteq> fqn m"
  proof (intro impI notI)
    assume h: "fqn m \<noteq> [] \<and> last (fqn m) = name m \<and> model_name (create_template c) (name m) \<noteq> name m"
      and eq: "butlast (fqn m) @ [model_name (create_template c) (name m)] = fqn m"
    from eq have "last (butlast (fqn m) @ [model_name (create_template c) (name m)]) = last (fqn m)"
      by simp
    with h show False by simp
  qed
  from a b b' d d' e show ?thesis by blast
qed

theorem ref_endpoint_is_rendered_fqn_witness:
  "find_model_by_name enabled_pool ''b'' None = Inr referenced_model \<and>
   fqn referenced_model = [''proj'', ''b''] \<and> last (fqn referenced_model) = name referenced_model \<and>
   model_name (create_template (example_compiler test_adapter enabled_pool)) (name referenced_model)
     = ''test_b'' \<and>
   ([''proj'', ''test_b''], [''proj'', ''a'']) \<in>
     set (edges (snd (do_ref (example_compiler test_adapter enabled_pool) ''analytics''
        [''proj'', ''a''] enabled_pool [''b''] DiGraph))) \<and>
   truthy (dict_get (config referenced_model) ''enabled'') \<and>
   template referenced_model = Some [Text ''select 1''] \<and>
   [''proj'', ''b''] \<in> set (nodes (fst (snd (compile_model plain_os
       (example_compiler test_adapter enabled_pool) DiGraph referenced_model enabled_pool
       initialized_world)))) \<and>
   [''proj'', ''test_b''] \<noteq> fqn referenced_model"
proof -
  have h: "find_model_by_name enabled_pool ''b'' None = Inr referenced_model"
    by code_simp
  have f: "fqn referenced_model = [''proj'', ''b'']" "name referenced_model = ''b''"
    and tm: "template referenced_model = Some [Text ''select 1'']"
    by (simp_all add: referenced_model_def)
  have t: "truthy (dict_get (config referenced_model) ''enabled'')"
    by (simp add: referenced_model_def dict_get_def)
  have n: "model_name (create_template (example_compiler test_adapter enabled_pool)) ''b'' = ''test_b''"
    by (simp add: example_compiler_def test_adapter_def)
  have cx: "project_context (project (example_compiler test_adapter enabled_pool)) = Inr example_context"
    by (simp add: example_compiler_def example_project_def)
  have ce: "map_of example_context ''env'' = Some [(''schema'', ''analytics'')]"
    and cs: "map_of [(''schema'', ''analytics'')] ''schema'' = Some ''analytics''"
    by (simp_all add: example_context_def)
  note T = ref_endpoint_is_rendered_fqn [OF h, of "example_compiler test_adapter enabled_pool"
      "''analytics''" "[''proj'', ''a'']" DiGraph plain_os DiGraph initialized_world]
  from T t tm cx ce cs have r: "fqn referenced_model \<in> set (nodes (fst (snd (compile_model plain_os
       (example_compiler test_adapter enabled_pool) DiGraph referenced_model enabled_pool
       initialized_world))))"
    by blast
  from T have ed: "(butlast (fqn referenced_model) @
        [model_name (create_template (example_compiler test_adapter enabled_pool))
           (name referenced_model)], [''proj'', ''a''])
     \<in> set (edges (snd (do_ref (example_compiler test_adapter enabled_pool) ''analytics''
        [''proj'', ''a''] enabled_pool (ref_args ''b'' None) DiGraph)))"
    by blast
  from h t tm r ed show ?thesis
    by (simp add: f n ref_args_def)
qed

section \<open>Properties of the topological ordering\<close>

lemma topo_Nil: "topological_order es [] = Inr []"
  by (subst topological_order.simps) simp

lemma topo_Some:
  "remaining \<noteq> [] \<Longrightarrow> find (ready es remaining) remaining = Some n \<Longrightarrow>
   topological_order es remaining =
     (case topological_order es (removeAll n remaining) of
        Inl e \<Rightarrow> Inl e | Inr order \<Rightarrow> Inr (n # order))"
  by (subst topological_order.simps) simp

lemma topo_None:
  "remaining \<noteq> [] \<Longrightarrow> find (ready es remaining) remaining = None \<Longrightarrow>
   topological_order es remaining = Inl CyclicDependency"
  by (subst topological_order.simps) simp

lemma topo_Inr:
  "topological_order es rem = Inr order \<Longrightarrow>
     set order = set rem \<and> distinct order \<and>
     (\<forall>(u, v) \<in> set es. u \<in> set rem \<and> v \<in> set rem \<longrightarrow> comes_before u v order)"
proof (induction es rem arbitrary: order rule: topological_order.induct)
  case (1 es remaining)
  show ?case
  proof (cases "remaining = []")
    case True
    with "1.prems" show ?thesis by (simp add: topo_Nil)
  next
    case False
    show ?thesis
    proof (cases "find (ready es remaining) remaining")
      case None
      with False "1.prems" show ?thesis by (simp add: topo_None)
    next
      case (Some n)
      with False "1.prems" obtain order' where
        r: "topological_order es (removeAll n remaining) = Inr order'" and
        o: "order = n # order'"
        by (auto simp: topo_Some split: sum.splits)
      from Some have nin: "n \<in> set remaining" and rdy: "ready es remaining n"
        by (auto simp: find_Some_iff)
      from "1.IH" [OF False Some r] have
        s: "set order' = set (removeAll n remaining)" and d: "distinct order'" and
        e: "\<forall>(u, v) \<in> set es. u \<in> set (removeAll n remaining) \<and> v \<in> set (removeAll n remaining)
               \<longrightarrow> comes_before u v order'"
        by auto
      have "set order = set remaining" using s o nin by auto
      moreover have "distinct order" using s d o by auto
      moreover have "comes_before u v order"
        if uv: "(u, v) \<in> set es" and u: "u \<in> set remaining" and v: "v \<in> set remaining" for u v
      proof -
        have vn: "v \<noteq> n" using rdy uv u by (auto simp: ready_def list_ex_iff)
        show ?thesis
        proof (cases "u = n")
          case True
          then show ?thesis using vn v s o by (simp add: comes_before_def)
        next
          case False
          with e uv u v vn have "comes_before u v order'" by auto
          then show ?thesis using o vn by (simp add: comes_before_def)
        qed
      qed
      ultimately show ?thesis by blast
    qed
  qed
qed

lemma topo_error: "topological_order es rem = Inl e \<Longrightarrow> e = CyclicDependency"
proof (induction es rem rule: topological_order.induct)
  case (1 es remaining)
  show ?case
  proof (cases "remaining = []")
    case True
    with "1.prems" show ?thesis by (simp add: topo_Nil)
  next
    case False
    show ?thesis
    proof (cases "find (ready es remaining) remaining")
      case None
      with False "1.prems" show ?thesis by (simp add: topo_None)
    next
      case (Some n)
      with False "1.prems" have "topological_order es (removeAll n remaining) = Inl e"
        by (simp add: topo_Some split: sum.splits)
      from "1.IH" [OF False Some this] show ?thesis .
    qed
  qed
qed

lemma rank_lt: "comes_before u v xs \<Longrightarrow>
   length (takeWhile (\<lambda>x. x \<noteq> u) xs) < length (takeWhile (\<lambda>x. x \<noteq> v) xs)"
  by (induction xs) (auto simp: comes_before_def split: if_splits)

lemma topo_Inr_acyclic:
  assumes "topological_order es rem = Inr order"
  shows "acyclic (restricted es (set rem))"
proof (rule acyclicI_order [where f = "\<lambda>n. length order - length (takeWhile (\<lambda>x. x \<noteq> n) order)"])
  fix a b assume "(a, b) \<in> restricted es (set rem)"
  then have "comes_before a b order"
    using topo_Inr [OF assms] by (auto simp: restricted_def)
  from rank_lt [OF this]
  have "length (takeWhile (\<lambda>x. x \<noteq> a) order) < length (takeWhile (\<lambda>x. x \<noteq> b) order)" .
  moreover have "length (takeWhile (\<lambda>x. x \<noteq> b) order) \<le> length order"
    by (rule length_takeWhile_le)
  ultimately show "length order - length (takeWhile (\<lambda>x. x \<noteq> b) order)
      < length order - length (takeWhile (\<lambda>x. x \<noteq> a) order)" by arith
qed

lemma acyclic_ready:
  assumes ac: "acyclic (restricted es (set rem))" and ne: "rem \<noteq> []"
  shows "\<exists>n \<in> set rem. ready es rem n"
proof -
  have fin: "finite (restricted es (set rem))"
    by (rule finite_subset [of _ "set es"]) (auto simp: restricted_def)
  have w: "wf (restricted es (set rem))"
    using fin ac by (rule finite_acyclic_wf)
  from ne obtain x where x: "x \<in> set rem" by (cases rem) auto
  obtain z where z: "z \<in> set rem"
    and zmin: "\<And>y. (y, z) \<in> restricted es (set rem) \<Longrightarrow> y \<notin> set rem"
    using wfE_min [OF w x] by metis
  have "ready es rem z"
    unfolding ready_def list_ex_iff
  proof
    assume "\<exists>e \<in> set es. case e of (u, v) \<Rightarrow> v = z \<and> u \<in> set rem"
    then obtain u where "(u, z) \<in> set es" "u \<in> set rem" by auto
    with z have "(u, z) \<in> restricted es (set rem)" by (simp add: restricted_def)
    from zmin [OF this] \<open>u \<in> set rem\<close> show False by simp
  qed
  with z show ?thesis by blast
qed

lemma topo_acyclic_Inr:
  "acyclic (restricted es (set rem)) \<Longrightarrow> \<exists>order. topological_order es rem = Inr order"
proof (induction es rem rule: topological_order.induct)
  case (1 es remaining)
  show ?case
  proof (cases "remaining = []")
    case True
    then show ?thesis by (simp add: topo_Nil)
  next
    case False
    from acyclic_ready [OF "1.prems" False] obtain n where
      f: "find (ready es remaining) remaining = Some n"
      by (cases "find (ready es remaining) remaining") (auto simp: find_None_iff)
    have "restricted es (set (removeAll n remaining)) \<subseteq> restricted es (set remaining)"
      by (auto simp: restricted_def)
    with "1.prems" have "acyclic (restricted es (set (removeAll n remaining)))"
      by (rule acyclic_subset)
    from "1.IH" [OF False f this] obtain order' where
      "topological_order es (removeAll n remaining) = Inr order'" by blast
    with f False show ?thesis by (simp add: topo_Some)
  qed
qed

lemma relevant_set:
  "relevant g lim = set (case lim of None \<Rightarrow> nodes g | Some bunch \<Rightarrow> filter (\<lambda>n. n \<in> set bunch) (nodes g))"
  by (auto simp: relevant_def split: option.splits)

text \<open>
  C8. In a graph whose edges join its own nodes, the ordering that \<open>as_dependency_list\<close>
  returns over the whole graph puts \<open>u\<close> before \<open>v\<close> for every edge from \<open>u\<close> to \<open>v\<close>,
  and so does the ordering over any subset that contains both; when the edges among the
  relevant nodes contain a cycle the call fails with the cyclic-dependency error, and
  otherwise it returns each relevant node exactly once. The ordering is the one modelled
  from the spec above.
\<close>

theorem as_dependency_list_respects_edges:
  assumes "graph_ok g"
  shows "(\<forall>order u v. as_dependency_list g None = Inr order \<longrightarrow> (u, v) \<in> set (edges g) \<longrightarrow>
            comes_before u v order) \<and>
         (\<forall>bunch order u v. as_dependency_list g (Some bunch) = Inr order \<longrightarrow>
            (u, v) \<in> set (edges g) \<longrightarrow> u \<in> set bunch \<longrightarrow> v \<in> set bunch \<longrightarrow>
            comes_before u v order) \<and>
         (\<forall>lim. has_cycle g lim \<longrightarrow> as_dependency_list g lim = Inl CyclicDependency) \<and>
         (\<forall>lim. \<not> has_cycle g lim \<longrightarrow>
            (\<exists>order. as_dependency_list g lim = Inr order \<and> set order = relevant g lim \<and>
                     distinct order))"
proof -
  have ends: "u \<in> set (nodes g) \<and> v \<in> set (nodes g)" if "(u, v) \<in> set (edges g)" for u v
    using assms that by (auto simp: graph_ok_def list_all_iff)
  have ord: "comes_before u v order"
    if "as_dependency_list g lim = Inr order" "(u, v) \<in> set (edges g)"
       "u \<in> relevant g lim" "v \<in> relevant g lim" for lim order u v
    using that topo_Inr [of "edges g" _ order]
    by (auto simp: as_dependency_list_def topological_sort_def relevant_set)
  have a: "\<forall>order u v. as_dependency_list g None = Inr order \<longrightarrow> (u, v) \<in> set (edges g) \<longrightarrow>
            comes_before u v order"
    using ord [of None] ends by (simp add: relevant_def)
  have b: "\<forall>bunch order u v. as_dependency_list g (Some bunch) = Inr order \<longrightarrow>
            (u, v) \<in> set (edges g) \<longrightarrow> u \<in> set bunch \<longrightarrow> v \<in> set bunch \<longrightarrow>
            comes_before u v order"
    using ord ends by (simp add: relevant_def)
  have c: "as_dependency_list g lim = Inl CyclicDependency" if cy: "has_cycle g lim" for lim
  proof (cases "as_dependency_list g lim")
    case (Inl e)
    then show ?thesis using topo_error [of "edges g" _ e]
      by (simp add: as_dependency_list_def topological_sort_def)
  next
    case (Inr order)
    then have "acyclic (restricted (edges g) (relevant g lim))"
      unfolding relevant_set as_dependency_list_def topological_sort_def
      by (rule topo_Inr_acyclic)
    with cy show ?thesis by (simp add: has_cycle_def)
  qed
  have d: "\<exists>order. as_dependency_list g lim = Inr order \<and> set order = relevant g lim \<and> distinct order"
    if "\<not> has_cycle g lim" for lim
  proof -
    from that have "acyclic (restricted (edges g) (relevant g lim))" by (simp add: has_cycle_def)
    then obtain order where o: "as_dependency_list g lim = Inr order"
      unfolding relevant_set as_dependency_list_def topological_sort_def
      using topo_acyclic_Inr by blast
    then have "set order = relevant g lim \<and> distinct order"
      using topo_Inr [of "edges g" _ order]
      by (simp add: as_dependency_list_def topological_sort_def relevant_set)
    with o show ?thesis by blast
  qed
  from a b c d show ?thesis by blast
qed

lemma chain_ok: "graph_ok chain_graph"
  unfolding chain_graph_def
  by (intro graph_ok_dependency graph_ok_add_node graph_ok_DiGraph)

lemma cyclic_ok: "graph_ok cyclic_graph"
  unfolding cyclic_graph_def
  by (intro graph_ok_dependency graph_ok_add_node graph_ok_DiGraph)

theorem as_dependency_list_respects_edges_witness:
  "graph_ok chain_graph \<and>
   \<not> has_cycle chain_graph None \<and>
   as_dependency_list chain_graph None =
     Inr [[''proj'', ''z''], [''proj'', ''a''], [''proj'', ''b''], [''proj'', ''c'']] \<and>
   ([''proj'', ''a''], [''proj'', ''b'']) \<in> set (edges chain_graph) \<and>
   comes_before [''proj'', ''a''] [''proj'', ''b'']
     [[''proj'', ''z''], [''proj'', ''a''], [''proj'', ''b''], [''proj'', ''c'']] \<and>
   as_dependency_list chain_graph (Some [[''proj'', ''c''], [''proj'', ''b'']]) =
     Inr [[''proj'', ''b''], [''proj'', ''c'']] \<and>
   ([''proj'', ''b''], [''proj'', ''c'']) \<in> set (edges chain_graph) \<and>
   comes_before [''proj'', ''b''] [''proj'', ''c''] [[''proj'', ''b''], [''proj'', ''c'']] \<and>
   graph_ok cyclic_graph \<and> has_cycle cyclic_graph None \<and>
   as_dependency_list cyclic_graph None = Inl CyclicDependency"
proof -
  note T = as_dependency_list_respects_edges [OF chain_ok]
  note U = as_dependency_list_respects_edges [OF cyclic_ok]
  have e1: "as_dependency_list chain_graph None =
     Inr [[''proj'', ''z''], [''proj'', ''a''], [''proj'', ''b''], [''proj'', ''c'']]"
    by code_simp
  have e2: "as_dependency_list chain_graph (Some [[''proj'', ''c''], [''proj'', ''b'']]) =
     Inr [[''proj'', ''b''], [''proj'', ''c'']]"
    by code_simp
  have e3: "as_dependency_list cyclic_graph None = Inl CyclicDependency"
    by code_simp
  have m1: "([''proj'', ''a''], [''proj'', ''b'']) \<in> set (edges chain_graph)"
    by code_simp
  have m2: "([''proj'', ''b''], [''proj'', ''c'']) \<in> set (edges chain_graph)"
    by code_simp
  have n1: "\<not> has_cycle chain_graph None"
    using T e1 by auto
  have c1: "comes_before [''proj'', ''a''] [''proj'', ''b'']
     [[''proj'', ''z''], [''proj'', ''a''], [''proj'', ''b''], [''proj'', ''c'']]"
    using T e1 m1 by blast
  have c2: "comes_before [''proj'', ''b''] [''proj'', ''c''] [[''proj'', ''b''], [''proj'', ''c'']]"
  proof -
    have "[''proj'', ''b''] \<in> set [[''proj'', ''c''], [''proj'', ''b'']]"
      and "[''proj'', ''c''] \<in> set [[''proj'', ''c''], [''proj'', ''b'']]" by simp_all
    with T e2 m2 show ?thesis by blast
  qed
  have h: "has_cycle cyclic_graph None"
    using U e3 by auto
  show ?thesis
    using chain_ok cyclic_ok e1 e2 e3 m1 m2 n1 c1 c2 h by simp
qed

section \<open>Properties of the compiler\<close>

lemma validate_scan_Inr:
  "(validate_scan S ms = Inr u) = (distinct (map name ms) \<and> name ` set ms \<inter> S = {})"
  by (induction ms arbitrary: S) auto

lemma validate_scan_Inl:
  "validate_scan S ms = Inl e \<Longrightarrow>
     \<exists>nm. e = DuplicateModelName nm \<and> nm \<in> name ` set ms \<and>
          (nm \<in> S \<or> 1 < count_list (map name ms) nm)"
proof (induction ms arbitrary: S)
  case Nil
  then show ?case by simp
next
  case (Cons m ms)
  show ?case
  proof (cases "name m \<in> S")
    case True
    with Cons.prems show ?thesis by auto
  next
    case False
    with Cons.prems have "validate_scan (insert (name m) S) ms = Inl e" by simp
    from Cons.IH [OF this] obtain nm where
      e: "e = DuplicateModelName nm" and i: "nm \<in> name ` set ms" and
      d: "nm \<in> insert (name m) S \<or> 1 < count_list (map name ms) nm" by blast
    from i have c: "0 < count_list (map name ms) nm"
      using count_list_0_iff [of "map name ms" nm] by auto
    from d c have "nm \<in> S \<or> 1 < count_list (map name (m # ms)) nm" by auto
    with e i show ?thesis by auto
  qed
qed

text \<open>
  C3. When discovery has produced a candidate pool (the primary project's models, then
  those of each dependency project) in which two models share a terminal name,
  \<open>compile\<close> fails with the duplicate-name error, naming a name that occurs more than
  once, and the world is as before: no model has been compiled and no file written. When
  all terminal names are distinct, validation passes and \<open>compile\<close> goes on with lines
  168-185.
\<close>

theorem duplicate_model_name_is_fatal:
  assumes "discover sys c w = Inr pool"
  shows "(\<not> distinct (map name pool) \<longrightarrow>
            (\<exists>nm. 1 < count_list (map name pool) nm \<and>
                  compile sys c w = (Inl (DuplicateModelName nm), w))) \<and>
         (distinct (map name pool) \<longrightarrow>
            validate_models_unique pool = Inr () \<and> compile sys c w = compile_validated sys c pool w)"
proof (intro conjI impI)
  assume nd: "\<not> distinct (map name pool)"
  then have "validate_models_unique pool \<noteq> Inr ()"
    by (simp add: validate_models_unique_def validate_scan_Inr)
  then obtain e where e: "validate_models_unique pool = Inl e"
    by (cases "validate_models_unique pool") auto
  then obtain nm where "e = DuplicateModelName nm" "1 < count_list (map name pool) nm"
    using validate_scan_Inl [of "{}" pool e] by (auto simp: validate_models_unique_def)
  with e assms show "\<exists>nm. 1 < count_list (map name pool) nm \<and>
                  compile sys c w = (Inl (DuplicateModelName nm), w)"
    by (auto simp: compile_def)
next
  assume d: "distinct (map name pool)"
  then show v: "validate_models_unique pool = Inr ()"
    by (simp add: validate_models_unique_def validate_scan_Inr)
  with assms show "compile sys c w = compile_validated sys c pool w"
    by (simp add: compile_def)
qed

theorem duplicate_model_name_is_fatal_witness:
  "discover plain_os (example_compiler build_adapter example_pool) initialized_world = Inr example_pool \<and>
   \<not> distinct (map name example_pool) \<and>
   compile plain_os (example_compiler build_adapter example_pool) initialized_world =
     (Inl (DuplicateModelName ''b''), initialized_world) \<and>
   discover plain_os (example_compiler build_adapter disabled_pool) initialized_world = Inr disabled_pool \<and>
   distinct (map name disabled_pool) \<and>
   validate_models_unique disabled_pool = Inr () \<and>
   compile plain_os (example_compiler build_adapter disabled_pool) initialized_world =
     compile_validated plain_os (example_compiler build_adapter disabled_pool) disabled_pool initialized_world"
proof -
  have d0: "discover plain_os (example_compiler build_adapter example_pool) initialized_world = Inr example_pool"
    by code_simp
  have nd: "\<not> distinct (map name example_pool)"
    by (simp add: example_pool_def)
  from duplicate_model_name_is_fatal [OF d0] nd obtain nm where
    c: "1 < count_list (map name example_pool) nm" and
    r: "compile plain_os (example_compiler build_adapter example_pool) initialized_world =
          (Inl (DuplicateModelName nm), initialized_world)"
    by blast
  from c have "nm = ''b''"
    by (auto simp: example_pool_def split: if_splits)
  with r have r0: "compile plain_os (example_compiler build_adapter example_pool) initialized_world =
          (Inl (DuplicateModelName ''b''), initialized_world)" by simp
  have d1: "discover plain_os (example_compiler build_adapter disabled_pool) initialized_world = Inr disabled_pool"
    by code_simp
  have di: "distinct (map name disabled_pool)"
    by (simp add: disabled_pool_def referring_model_def disabled_model_def)
  from duplicate_model_name_is_fatal [OF d1] di d0 nd r0 d1 show ?thesis by simp
qed

lemma unique_name_filter:
  "distinct (map name pool) \<Longrightarrow> b \<in> set pool \<Longrightarrow> filter (\<lambda>m. name m = name b) pool = [b]"
proof (induction pool)
  case Nil
  then show ?case by simp
next
  case (Cons m ms)
  show ?case
  proof (cases "m = b")
    case True
    from Cons.prems True have "name b \<notin> name ` set ms" by simp
    then have "\<forall>x \<in> set ms. name x \<noteq> name b" by (metis imageI)
    then have "filter (\<lambda>m. name m = name b) ms = []"
      by (simp add: filter_empty_conv)
    with True show ?thesis by simp
  next
    case False
    with Cons.prems have "b \<in> set ms" by simp
    with Cons.prems have "name m \<noteq> name b" by auto
    with Cons \<open>b \<in> set ms\<close> show ?thesis by simp
  qed
qed

lemma unique_name_resolves:
  assumes "distinct (map name pool)" "b \<in> set pool"
  shows "find_model_by_name pool (name b) None = Inr b"
    and "find_model_by_name pool (name b) (Some (project_name b)) = Inr b"
proof -
  have f: "filter (\<lambda>m. name m = name b) pool = [b]"
    using assms by (rule unique_name_filter)
  have "matches (name b) None = (\<lambda>m. name m = name b)"
    by (simp add: matches_def fun_eq_iff)
  with f show "find_model_by_name pool (name b) None = Inr b"
    by (simp add: find_model_by_name_def find_scan_filter)
  have "filter (matches (name b) (Some (project_name b))) pool =
        filter (\<lambda>m. project_name m = project_name b) (filter (\<lambda>m. name m = name b) pool)"
    by (auto simp: matches_def intro!: filter_cong)
  with f show "find_model_by_name pool (name b) (Some (project_name b)) = Inr b"
    by (simp add: find_model_by_name_def find_scan_filter)
qed


lemma compile_model_linker_cases:
  "fst (snd (compile_model sys c g m pool w)) = g \<or>
   (\<exists>its sch. fst (snd (compile_model sys c g m pool w)) =
      snd (render (do_ref c sch (fqn m) pool) its (add_node (fqn m) g)))"
proof (cases "truthy (dict_get (config m) ''enabled'')")
  case False
  then show ?thesis by (simp add: compile_model_def)
next
  case en: True
  show ?thesis
  proof (cases "template m")
    case None
    with en show ?thesis by (simp add: compile_model_def)
  next
    case (Some its)
    show ?thesis
    proof (cases "project_context (project c)")
      case (Inl e)
      with en Some show ?thesis by (simp add: compile_model_def)
    next
      case (Inr ctx)
      show ?thesis
      proof (cases "Compiler_ref c g ctx m pool")
        case (Inl e)
        with en Some Inr show ?thesis by (simp add: compile_model_def)
      next
        case r: (Inr p)
        obtain g0 ref where p: "p = (g0, ref)" by (cases p)
        from Compiler_ref_Inr [OF r [unfolded p]] obtain env sch where
          "map_of ctx ''env'' = Some env" "map_of env ''schema'' = Some sch" by blast
        from compile_model_linker [OF en Some Inr this, of sys g pool w] show ?thesis
          by blast
      qed
    qed
  qed
qed

lemma compile_model_keeps_node:
  assumes "n \<in> set (nodes g)"
  shows "n \<in> set (nodes (fst (snd (compile_model sys c g m pool w))))"
proof -
  from assms have "n \<in> set (nodes (add_node (fqn m) g))" by (simp add: nodes_add_node)
  then have "n \<in> set (nodes (snd (render (do_ref c sch (fqn m) pool) its (add_node (fqn m) g))))"
    for sch its by (rule render_nodes)
  with assms compile_model_linker_cases [of sys c g m pool w] show ?thesis by auto
qed

lemma compile_model_keeps_edge:
  assumes "e \<in> set (edges g)"
  shows "e \<in> set (edges (fst (snd (compile_model sys c g m pool w))))"
proof -
  from assms have "e \<in> set (edges (add_node (fqn m) g))" by (simp add: edges_add_node)
  then have "e \<in> set (edges (snd (render (do_ref c sch (fqn m) pool) its (add_node (fqn m) g))))"
    for sch its by (rule render_edges)
  with assms compile_model_linker_cases [of sys c g m pool w] show ?thesis by auto
qed

lemma render_call_establishes:
  assumes keep: "\<And>args g. P g \<Longrightarrow> P (snd (ref args g))"
    and est: "\<And>g. P (snd (ref args0 g))"
  shows "render ref its g = (Inr out, g') \<Longrightarrow> Call args0 \<in> set its \<Longrightarrow> P g'"
proof (induction its arbitrary: g out)
  case Nil
  then show ?case by simp
next
  case (Cons it its)
  show ?case
  proof (cases it)
    case (Text t)
    with Cons.prems obtain out1 where "render ref its g = (Inr out1, g')" "Call args0 \<in> set its"
      by (auto split: prod.splits sum.splits)
    then show ?thesis by (rule Cons.IH)
  next
    case (Call args)
    obtain r g1 where r: "ref args g = (r, g1)" by (cases "ref args g")
    with Cons.prems Call obtain s out1 where
      rs: "r = Inr s" and rest: "render ref its g1 = (Inr out1, g')"
      by (auto split: prod.splits sum.splits)
    show ?thesis
    proof (cases "args = args0")
      case True
      with est [of g] r have "P g1" by simp
      from render_keeps [of P ref, OF keep this, of its] rest show ?thesis by simp
    next
      case False
      with Cons.prems Call have "Call args0 \<in> set its" by simp
      with rest show ?thesis by (rule Cons.IH)
    qed
  next
    case Raise
    with Cons.prems show ?thesis by simp
  qed
qed

lemma compile_model_Inr_rendered:
  assumes "compile_model sys c g a pool w = (Inr r, g', w')"
    and "truthy (dict_get (config a) ''enabled'')" and "template a = Some its"
  shows "\<exists>sch out. render (do_ref c sch (fqn a) pool) its (add_node (fqn a) g) = (Inr out, g')"
  using assms
  by (auto simp: compile_model_def Compiler_ref_def Let_def
           split: prod.splits sum.splits option.splits if_splits)

lemma resolved_reference_in_graph:
  assumes "find_model_by_name pool nm ns = Inr b"
  shows "(butlast (fqn b) @ [model_name (create_template c) (name b)], src)
           \<in> set (edges (snd (do_ref c sch src pool (ref_args nm ns) g))) \<and>
         butlast (fqn b) @ [model_name (create_template c) (name b)]
           \<in> set (nodes (snd (do_ref c sch src pool (ref_args nm ns) g)))"
proof -
  from assms have n: "name b = nm" by (simp add: find_model_by_name_name)
  show ?thesis
    using do_ref_resolved [OF assms, of c sch src g] n
    by (simp add: set_edges_dependency nodes_dependency)
qed

lemma compile_model_reference_in_graph:
  assumes "compile_model sys c g a pool w = (Inr r, g', w')"
    and "truthy (dict_get (config a) ''enabled'')" and "template a = Some its"
    and "Call (ref_args nm ns) \<in> set its" and "find_model_by_name pool nm ns = Inr b"
  shows "(butlast (fqn b) @ [model_name (create_template c) (name b)], fqn a) \<in> set (edges g') \<and>
         butlast (fqn b) @ [model_name (create_template c) (name b)] \<in> set (nodes g')"
proof -
  from compile_model_Inr_rendered [OF assms(1-3)] obtain sch out where
    r: "render (do_ref c sch (fqn a) pool) its (add_node (fqn a) g) = (Inr out, g')" by blast
  show ?thesis
  proof (rule render_call_establishes
      [where P = "\<lambda>g. (butlast (fqn b) @ [model_name (create_template c) (name b)], fqn a)
                         \<in> set (edges g) \<and>
                       butlast (fqn b) @ [model_name (create_template c) (name b)] \<in> set (nodes g)"
         and ref = "do_ref c sch (fqn a) pool" and ?args0.0 = "ref_args nm ns", OF _ _ r assms(4)])
    fix args and g :: graph
    assume "(butlast (fqn b) @ [model_name (create_template c) (name b)], fqn a) \<in> set (edges g) \<and>
            butlast (fqn b) @ [model_name (create_template c) (name b)] \<in> set (nodes g)"
    then show "(butlast (fqn b) @ [model_name (create_template c) (name b)], fqn a)
                 \<in> set (edges (snd (do_ref c sch (fqn a) pool args g))) \<and>
               butlast (fqn b) @ [model_name (create_template c) (name b)]
                 \<in> set (nodes (snd (do_ref c sch (fqn a) pool args g)))"
      using do_ref_edges [of g c sch "fqn a" pool args] do_ref_nodes [of g c sch "fqn a" pool args]
      by blast
  next
    fix g :: graph
    show "(butlast (fqn b) @ [model_name (create_template c) (name b)], fqn a)
            \<in> set (edges (snd (do_ref c sch (fqn a) pool (ref_args nm ns) g))) \<and>
          butlast (fqn b) @ [model_name (create_template c) (name b)]
            \<in> set (nodes (snd (do_ref c sch (fqn a) pool (ref_args nm ns) g)))"
      by (rule resolved_reference_in_graph [OF assms(5)])
  qed
qed

lemma compile_loop_reference_in_graph:
  assumes en: "truthy (dict_get (config a) ''enabled'')" and tm: "template a = Some its"
    and call: "Call (ref_args nm ns) \<in> set its" and f: "find_model_by_name pool nm ns = Inr b"
  shows "compile_loop sys c g ms pool compiled w = (Inr r, g', w') \<Longrightarrow>
         a \<in> set ms \<or>
           ((butlast (fqn b) @ [model_name (create_template c) (name b)], fqn a) \<in> set (edges g) \<and>
            butlast (fqn b) @ [model_name (create_template c) (name b)] \<in> set (nodes g)) \<Longrightarrow>
         (butlast (fqn b) @ [model_name (create_template c) (name b)], fqn a) \<in> set (edges g') \<and>
         butlast (fqn b) @ [model_name (create_template c) (name b)] \<in> set (nodes g')"
proof (induction ms arbitrary: g compiled w)
  case Nil
  then show ?case by simp
next
  case (Cons m ms)
  obtain r1 g1 w1 where cm: "compile_model sys c g m pool w = (r1, g1, w1)"
    by (cases "compile_model sys c g m pool w")
  with Cons.prems(1) obtain v where v: "r1 = Inr v" and
    rest: "compile_loop sys c g1 ms pool (if v = Some True then compiled @ [v] else compiled) w1 =
             (Inr r, g', w')"
    by (cases r1) auto
  have "a \<in> set ms \<or>
        ((butlast (fqn b) @ [model_name (create_template c) (name b)], fqn a) \<in> set (edges g1) \<and>
         butlast (fqn b) @ [model_name (create_template c) (name b)] \<in> set (nodes g1))"
  proof (cases "a \<in> set ms")
    case True
    then show ?thesis by simp
  next
    case False
    show ?thesis
    proof (cases "(butlast (fqn b) @ [model_name (create_template c) (name b)], fqn a) \<in> set (edges g) \<and>
            butlast (fqn b) @ [model_name (create_template c) (name b)] \<in> set (nodes g)")
      case True
      with compile_model_keeps_edge [of _ g sys c m pool w]
        compile_model_keeps_node [of _ g sys c m pool w] cm
      show ?thesis by auto
    next
      case nothere: False
      with Cons.prems(2) False have "a = m" by auto
      with cm v have "compile_model sys c g a pool w = (Inr v, g1, w1)" by simp
      from compile_model_reference_in_graph [OF this en tm call f] show ?thesis by simp
    qed
  qed
  with rest show ?case by (rule Cons.IH)
qed

text \<open>
  C6. A model whose config has \<open>enabled\<close> false produces no output, and compiling it adds
  nothing to the graph. The resolver, however, searches the whole pool, disabled models
  included: in a pool with distinct names, a reference to the disabled model by name, with
  or without its package, resolves to it, returns the reference text and registers the
  edge from its output FQN to the referring model instead of failing. When the loop over
  the models of a run completes, the graph it has built holds that node and that edge for
  every enabled model of the pool whose template makes such a reference, and the graph
  file, once written, holds this graph.
\<close>

theorem disabled_model_still_resolves:
  assumes "dict_get (config b) ''enabled'' = PyBool False"
    and "b \<in> set pool" and "distinct (map name pool)" and "write_then_read sys"
  shows "compile_model sys c g b pool w = (Inr None, g, w) \<and>
         (\<forall>ns sch src g'. ns = None \<or> ns = Some (project_name b) \<longrightarrow>
            find_model_by_name pool (name b) ns = Inr b \<and>
            do_ref c sch src pool (ref_args (name b) ns) g' =
              (Inr ([CHR 0x22] @ sch @ [CHR 0x22, CHR ''.'', CHR 0x22] @
                      model_name (create_template c) (name b) @ [CHR 0x22]),
               dependency src (butlast (fqn b) @ [model_name (create_template c) (name b)]) g')) \<and>
         (\<forall>a its ns compiled linker w1.
            a \<in> set pool \<and> truthy (dict_get (config a) ''enabled'') \<and> template a = Some its \<and>
            Call (ref_args (name b) ns) \<in> set its \<and> (ns = None \<or> ns = Some (project_name b)) \<and>
            compile_loop sys c DiGraph pool pool [] w = (Inr compiled, linker, w1) \<longrightarrow>
              (butlast (fqn b) @ [model_name (create_template c) (name b)], fqn a)
                \<in> set (edges linker) \<and>
              butlast (fqn b) @ [model_name (create_template c) (name b)] \<in> set (nodes linker) \<and>
              (\<forall>w2. Compiler_write_graph_file sys c linker w1 = (Inr (), w2) \<longrightarrow>
                 file_content sys (graph_path c) w2 = Some (GraphYaml linker)))"
proof -
  have res: "find_model_by_name pool (name b) ns = Inr b"
    if "ns = None \<or> ns = Some (project_name b)" for ns
    using that unique_name_resolves [OF assms(3,2)] by auto
  from assms(1) have one: "compile_model sys c g b pool w = (Inr None, g, w)"
    by (simp add: compile_model_def)
  have two: "\<forall>ns sch src g'. ns = None \<or> ns = Some (project_name b) \<longrightarrow>
            find_model_by_name pool (name b) ns = Inr b \<and>
            do_ref c sch src pool (ref_args (name b) ns) g' =
              (Inr ([CHR 0x22] @ sch @ [CHR 0x22, CHR ''.'', CHR 0x22] @
                      model_name (create_template c) (name b) @ [CHR 0x22]),
               dependency src (butlast (fqn b) @ [model_name (create_template c) (name b)]) g')"
  proof (intro allI impI)
    fix ns sch src g'
    assume "ns = None \<or> ns = Some (project_name b)"
    then have r: "find_model_by_name pool (name b) ns = Inr b" by (rule res)
    from do_ref_resolved [OF r, of c sch src g'] r
    show "find_model_by_name pool (name b) ns = Inr b \<and>
            do_ref c sch src pool (ref_args (name b) ns) g' =
              (Inr ([CHR 0x22] @ sch @ [CHR 0x22, CHR ''.'', CHR 0x22] @
                      model_name (create_template c) (name b) @ [CHR 0x22]),
               dependency src (butlast (fqn b) @ [model_name (create_template c) (name b)]) g')"
      by (simp add: quoted_def)
  qed
  have three: "\<forall>a its ns compiled linker w1.
            a \<in> set pool \<and> truthy (dict_get (config a) ''enabled'') \<and> template a = Some its \<and>
            Call (ref_args (name b) ns) \<in> set its \<and> (ns = None \<or> ns = Some (project_name b)) \<and>
            compile_loop sys c DiGraph pool pool [] w = (Inr compiled, linker, w1) \<longrightarrow>
              (butlast (fqn b) @ [model_name (create_template c) (name b)], fqn a)
                \<in> set (edges linker) \<and>
              butlast (fqn b) @ [model_name (create_template c) (name b)] \<in> set (nodes linker) \<and>
              (\<forall>w2. Compiler_write_graph_file sys c linker w1 = (Inr (), w2) \<longrightarrow>
                 file_content sys (graph_path c) w2 = Some (GraphYaml linker))"
  proof (intro allI impI)
    fix a its ns compiled linker w1
    assume h: "a \<in> set pool \<and> truthy (dict_get (config a) ''enabled'') \<and> template a = Some its \<and>
            Call (ref_args (name b) ns) \<in> set its \<and> (ns = None \<or> ns = Some (project_name b)) \<and>
            compile_loop sys c DiGraph pool pool [] w = (Inr compiled, linker, w1)"
    then have r: "find_model_by_name pool (name b) ns = Inr b" using res by blast
    from h have en: "truthy (dict_get (config a) ''enabled'')" and tm: "template a = Some its"
      and call: "Call (ref_args (name b) ns) \<in> set its"
      and loop: "compile_loop sys c DiGraph pool pool [] w = (Inr compiled, linker, w1)"
      and a: "a \<in> set pool" by simp_all
    have g: "(butlast (fqn b) @ [model_name (create_template c) (name b)], fqn a)
                \<in> set (edges linker) \<and>
              butlast (fqn b) @ [model_name (create_template c) (name b)] \<in> set (nodes linker)"
      using compile_loop_reference_in_graph [OF en tm call r loop] a by blast
    have p: "\<forall>w2. Compiler_write_graph_file sys c linker w1 = (Inr (), w2) \<longrightarrow>
                 file_content sys (graph_path c) w2 = Some (GraphYaml linker)"
      using assms(4) by (simp add: Compiler_write_graph_file_def write_graph_def write_then_read_def)
    from g p show "(butlast (fqn b) @ [model_name (create_template c) (name b)], fqn a)
                \<in> set (edges linker) \<and>
              butlast (fqn b) @ [model_name (create_template c) (name b)] \<in> set (nodes linker) \<and>
              (\<forall>w2. Compiler_write_graph_file sys c linker w1 = (Inr (), w2) \<longrightarrow>
                 file_content sys (graph_path c) w2 = Some (GraphYaml linker))"
      by blast
  qed
  from one two three show ?thesis by blast
qed

lemma plain_os_write_then_read: "write_then_read plain_os"
  by (auto simp: write_then_read_def plain_os_def plain_write_def plain_content_def
           split: if_splits)




theorem disabled_model_still_resolves_witness:
  "dict_get (config disabled_model) ''enabled'' = PyBool False \<and>
   disabled_model \<in> set disabled_pool \<and> distinct (map name disabled_pool) \<and>
   compile_model plain_os (example_compiler build_adapter disabled_pool) DiGraph disabled_model
       disabled_pool initialized_world = (Inr None, DiGraph, initialized_world) \<and>
   find_model_by_name disabled_pool ''b'' None = Inr disabled_model \<and>
   do_ref (example_compiler build_adapter disabled_pool) ''analytics'' [''proj'', ''a'']
       disabled_pool [''b''] DiGraph =
     (Inr ([CHR 0x22] @ ''analytics'' @ [CHR 0x22, CHR ''.'', CHR 0x22] @ ''b'' @ [CHR 0x22]),
      dependency [''proj'', ''a''] [''proj'', ''b''] DiGraph) \<and>
   do_ref (example_compiler build_adapter disabled_pool) ''analytics'' [''proj'', ''a'']
       disabled_pool [''proj'', ''b''] DiGraph =
     (Inr ([CHR 0x22] @ ''analytics'' @ [CHR 0x22, CHR ''.'', CHR 0x22] @ ''b'' @ [CHR 0x22]),
      dependency [''proj'', ''a''] [''proj'', ''b''] DiGraph) \<and>
   referring_model \<in> set disabled_pool \<and>
   fst (compile_loop plain_os (example_compiler build_adapter disabled_pool) DiGraph disabled_pool
          disabled_pool [] initialized_world) = Inr [Some True] \<and>
   ([''proj'', ''b''], [''proj'', ''a'']) \<in>
     set (edges (fst (snd (compile_loop plain_os (example_compiler build_adapter disabled_pool)
        DiGraph disabled_pool disabled_pool [] initialized_world)))) \<and>
   [''proj'', ''b''] \<in>
     set (nodes (fst (snd (compile_loop plain_os (example_compiler build_adapter disabled_pool)
        DiGraph disabled_pool disabled_pool [] initialized_world))))"
proof -
  have h: "dict_get (config disabled_model) ''enabled'' = PyBool False"
    by (simp add: disabled_model_def dict_get_def)
  have i: "disabled_model \<in> set disabled_pool" and ia: "referring_model \<in> set disabled_pool"
    by (simp_all add: disabled_pool_def)
  have di: "distinct (map name disabled_pool)"
    by (simp add: disabled_pool_def referring_model_def disabled_model_def)
  have f: "fqn disabled_model = [''proj'', ''b'']" "name disabled_model = ''b''"
    "project_name disabled_model = ''proj''"
    by (simp_all add: disabled_model_def)
  have fa: "fqn referring_model = [''proj'', ''a'']"
    and ta: "template referring_model = Some [Text ''select * from '', Call [''b'']]"
    and ea: "truthy (dict_get (config referring_model) ''enabled'')"
    by (simp_all add: referring_model_def dict_get_def)
  have n: "model_name (create_template (example_compiler build_adapter disabled_pool)) ''b'' = ''b''"
    by (simp add: example_compiler_def build_adapter_def)
  note T = disabled_model_still_resolves [OF h i di plain_os_write_then_read,
      of "example_compiler build_adapter disabled_pool" DiGraph initialized_world, unfolded f n]
  note T1 = T [THEN conjunct1]
    and T2 = T [THEN conjunct2, THEN conjunct1, rule_format]
    and T3 = T [THEN conjunct2, THEN conjunct2, rule_format]
  from T1 have one: "compile_model plain_os (example_compiler build_adapter disabled_pool) DiGraph
       disabled_model disabled_pool initialized_world = (Inr None, DiGraph, initialized_world)" .
  have two: "find_model_by_name disabled_pool ''b'' ns = Inr disabled_model \<and>
       do_ref (example_compiler build_adapter disabled_pool) ''analytics'' [''proj'', ''a'']
         disabled_pool (ref_args ''b'' ns) DiGraph =
       (Inr ([CHR 0x22] @ ''analytics'' @ [CHR 0x22, CHR ''.'', CHR 0x22] @ ''b'' @ [CHR 0x22]),
        dependency [''proj'', ''a''] [''proj'', ''b''] DiGraph)"
    if "ns = None \<or> ns = Some ''proj''" for ns
    using T2 [OF that, of "''analytics''" "[''proj'', ''a'']" DiGraph] by simp
  obtain compiled linker w1 where
    loop: "compile_loop plain_os (example_compiler build_adapter disabled_pool) DiGraph disabled_pool
          disabled_pool [] initialized_world = (Inr compiled, linker, w1)"
    and cv: "compiled = [Some True]"
  proof -
    have "fst (compile_loop plain_os (example_compiler build_adapter disabled_pool) DiGraph
          disabled_pool disabled_pool [] initialized_world) = Inr [Some True]"
      by code_simp
    then show ?thesis
      using that
      by (cases "compile_loop plain_os (example_compiler build_adapter disabled_pool) DiGraph
          disabled_pool disabled_pool [] initialized_world") auto
  qed
  have call: "Call (ref_args ''b'' None) \<in> set [Text ''select * from '', Call [''b'']]"
    by (simp add: ref_args_def)
  have "referring_model \<in> set disabled_pool \<and>
        truthy (dict_get (config referring_model) ''enabled'') \<and>
        template referring_model = Some [Text ''select * from '', Call [''b'']] \<and>
        Call (ref_args ''b'' None) \<in> set [Text ''select * from '', Call [''b'']] \<and>
        (None = None \<or> None = Some ''proj'') \<and>
        compile_loop plain_os (example_compiler build_adapter disabled_pool) DiGraph disabled_pool
          disabled_pool [] initialized_world = (Inr compiled, linker, w1)"
    using ia ea ta call loop by simp
  from T3 [OF this] have three:
    "([''proj'', ''b''], fqn referring_model) \<in> set (edges linker) \<and>
     [''proj'', ''b''] \<in> set (nodes linker)"
    by simp
  from h i di one two [of None] two [of "Some ''proj''"] ia loop cv three show ?thesis
    by (simp add: ref_args_def fa)
qed

text \<open>
  The pool of a run is not restricted to enabled models: with a disabled model \<open>b\<close> and a
  model \<open>a\<close> whose template calls \<^verbatim>\<open>ref('b')\<close>, the run succeeds, the statement of \<open>a\<close> is
  written with the reference text in it, and the persisted graph holds the FQN of \<open>b\<close>
  and the edge from it.
\<close>

theorem disabled_model_referenced_counterexample:
  "dict_get (config disabled_model) ''enabled'' = PyBool False \<and>
   template referring_model = Some [Text ''select * from '', Call [''b'']] \<and>
   fst (compile plain_os (example_compiler build_adapter disabled_pool) initialized_world) =
     Inr (1, 0) \<and>
   plain_content ''target/graph-build.yml''
       (snd (compile plain_os (example_compiler build_adapter disabled_pool) initialized_world)) =
     Some (GraphYaml \<lparr>nodes = [[''proj'', ''a''], [''proj'', ''b'']],
                       edges = [([''proj'', ''b''], [''proj'', ''a''])]\<rparr>) \<and>
   fqn disabled_model = [''proj'', ''b''] \<and>
   plain_content ''target/a.sql''
       (snd (compile plain_os (example_compiler build_adapter disabled_pool) initialized_world)) =
     Some (Payload (''select * from '' @ [CHR 0x22] @ ''analytics'' @
                      [CHR 0x22, CHR ''.'', CHR 0x22] @ ''b'' @ [CHR 0x22]))"
  by code_simp




lemma discover_Inr:
  "listdir sys (modules_path (project c)) w = Inr objs \<Longrightarrow> \<exists>pool. discover sys c w = Inr pool"
  by (simp add: discover_def dependency_projects_def)





end
